theory Spec2Isabelle
  imports Complex_Main
begin

section \<open>Tensors, vectors and Python errors\<close>

text \<open>
  The repository computes on torch tensors of floating-point numbers. The embedding
  works over the reals: a one-dimensional tensor is a \<open>real list\<close>, a two-dimensional
  tensor \<open>x\<close> of shape \<open>(N, d)\<close> is the list of its \<open>N\<close> rows \<open>x[i, :]\<close>, each of
  length \<open>d\<close>. Every exception the source can raise on such data is a value of
  \<open>error\<close>, returned as \<open>Inl\<close>.
\<close>

datatype error =
    IndexError
  | AssertionError
  | AttributeError
  | RuntimeError
  | ValueError
  | TypeError
  | OverflowError

type_synonym vec = "real list"
type_synonym tensor2 = "real list list"

text \<open>\<open>x.norm(dim=-1)\<close> on one row: the Euclidean norm of the whole row.\<close>

definition sum_squares :: "vec \<Rightarrow> real" where
  "sum_squares r = sum_list (map (\<lambda>v. v * v) r)"

definition norm_row :: "vec \<Rightarrow> real" where
  "norm_row r = sqrt (sum_squares r)"

section \<open>data_generation.py: the safe and unsafe masks\<close>

text \<open>
  \<open>safe_mask_fn\<close> starts from an all-true mask and conjoins four masks with
  \<open>logical_and_\<close>; each of them is one definition here, on one row of \<open>x\<close>
  (\<open>r ! 0\<close> is \<open>x[:, 0]\<close>, \<open>r ! 1\<close> is \<open>x[:, 1]\<close>).
\<close>

definition safe_floor_mask :: "vec \<Rightarrow> bool" where
  "safe_floor_mask r = (let safe_z = - 0.1 in r ! 1 \<ge> safe_z)"

definition safe_obs1_mask :: "vec \<Rightarrow> bool" where
  "safe_obs1_mask r =
     (let obs1_min_x = - 1.1; obs1_max_x = - 0.4;
          obs1_min_z = - 0.5; obs1_max_z = 0.6;
          obs1_mask_x = (r ! 0 \<le> obs1_min_x \<or> r ! 0 \<ge> obs1_max_x);
          obs1_mask_z = (r ! 1 \<le> obs1_min_z \<or> r ! 1 \<ge> obs1_max_z)
      in obs1_mask_x \<or> obs1_mask_z)"

definition safe_obs2_mask :: "vec \<Rightarrow> bool" where
  "safe_obs2_mask r =
     (let obs2_min_x = - 0.1; obs2_max_x = 1.1;
          obs2_min_z = 0.7; obs2_max_z = 1.5;
          obs2_mask_x = (r ! 0 \<le> obs2_min_x \<or> r ! 0 \<ge> obs2_max_x);
          obs2_mask_z = (r ! 1 \<le> obs2_min_z \<or> r ! 1 \<ge> obs2_max_z)
      in obs2_mask_x \<or> obs2_mask_z)"

definition safe_norm_mask :: "vec \<Rightarrow> bool" where
  "safe_norm_mask r = (norm_row r \<le> 4.5)"

definition safe_row :: "vec \<Rightarrow> bool" where
  "safe_row r =
     ((((True \<and> safe_floor_mask r) \<and> safe_obs1_mask r) \<and> safe_obs2_mask r)
        \<and> safe_norm_mask r)"

text \<open>
  \<open>unsafe_mask_fn\<close> starts from an all-false mask and disjoins four masks with
  \<open>logical_or_\<close>.
\<close>

definition unsafe_floor_mask :: "vec \<Rightarrow> bool" where
  "unsafe_floor_mask r = (let unsafe_z = - 0.3 in r ! 1 \<le> unsafe_z)"

definition unsafe_obs1_mask :: "vec \<Rightarrow> bool" where
  "unsafe_obs1_mask r =
     (let obs1_min_x = - 1.0; obs1_max_x = - 0.5;
          obs1_min_z = - 0.4; obs1_max_z = 0.5;
          obs1_mask_x = (r ! 0 \<ge> obs1_min_x \<and> r ! 0 \<le> obs1_max_x);
          obs1_mask_z = (r ! 1 \<ge> obs1_min_z \<and> r ! 1 \<le> obs1_max_z)
      in obs1_mask_x \<and> obs1_mask_z)"

definition unsafe_obs2_mask :: "vec \<Rightarrow> bool" where
  "unsafe_obs2_mask r =
     (let obs2_min_x = 0.0; obs2_max_x = 1.0;
          obs2_min_z = 0.8; obs2_max_z = 1.4;
          obs2_mask_x = (r ! 0 \<ge> obs2_min_x \<and> r ! 0 \<le> obs2_max_x);
          obs2_mask_z = (r ! 1 \<ge> obs2_min_z \<and> r ! 1 \<le> obs2_max_z)
      in obs2_mask_x \<and> obs2_mask_z)"

definition unsafe_norm_mask :: "vec \<Rightarrow> bool" where
  "unsafe_norm_mask r = (norm_row r \<ge> 5.0)"

definition unsafe_row :: "vec \<Rightarrow> bool" where
  "unsafe_row r =
     ((((False \<or> unsafe_floor_mask r) \<or> unsafe_obs1_mask r) \<or> unsafe_obs2_mask r)
        \<or> unsafe_norm_mask r)"

text \<open>
  The functions themselves, on the whole tensor. \<open>x[:, 0]\<close> and \<open>x[:, 1]\<close> raise
  IndexError when \<open>x\<close> has fewer than two columns; the result has one flag per row.
\<close>

definition safe_mask_fn :: "tensor2 \<Rightarrow> error + bool list" where
  "safe_mask_fn x =
     (if list_all (\<lambda>r. 2 \<le> length r) x then Inr (map safe_row x) else Inl IndexError)"

definition unsafe_mask_fn :: "tensor2 \<Rightarrow> error + bool list" where
  "unsafe_mask_fn x =
     (if list_all (\<lambda>r. 2 \<le> length r) x then Inr (map unsafe_row x) else Inl IndexError)"

section \<open>Python floats\<close>

text \<open>
  A Python float is an IEEE 754 binary64 number. \<open>round_float64 v\<close> is the real \<open>v\<close>
  rounded to the nearest binary64 number, ties to even: the unit in the last place is
  \<open>2\<close> to the power of the exponent of \<open>v\<close> (at least \<open>-1022\<close>) minus \<open>52\<close>. A result
  of magnitude \<open>2 ^ 1024\<close> or more is an overflow: converting such an integer raises
  OverflowError, and a product that large is \<open>inf\<close> (no value here), which
  \<open>int\<close> refuses with OverflowError. \<open>int\<close> truncates towards zero.
\<close>

definition pow2 :: "int \<Rightarrow> real" where
  "pow2 e = (if 0 \<le> e then 2 ^ nat e else 1 / 2 ^ nat (- e))"

definition round_half_even :: "real \<Rightarrow> int" where
  "round_half_even v =
     (let f = \<lfloor>v\<rfloor>; d = v - of_int f
      in if d < 1 / 2 then f else if 1 / 2 < d then f + 1 else if even f then f else f + 1)"

definition float64_exponent :: "real \<Rightarrow> int" where
  "float64_exponent v = max \<lfloor>log 2 \<bar>v\<bar>\<rfloor> (- 1022)"

definition round_float64 :: "real \<Rightarrow> real" where
  "round_float64 v =
     (if v = 0 then 0
      else (let ulp = pow2 (float64_exponent v - 52)
            in of_int (round_half_even (v / ulp)) * ulp))"

definition float_of_int :: "int \<Rightarrow> error + real" where
  "float_of_int n =
     (let r = round_float64 (of_int n)
      in if 2 ^ 1024 \<le> \<bar>r\<bar> then Inl OverflowError else Inr r)"

definition float_mul :: "real \<Rightarrow> real \<Rightarrow> real option" where
  "float_mul a b =
     (let r = round_float64 (a * b) in if 2 ^ 1024 \<le> \<bar>r\<bar> then None else Some r)"

definition int_of_float :: "real \<Rightarrow> int" where
  "int_of_float v = (if 0 \<le> v then \<lfloor>v\<rfloor> else \<lceil>v\<rceil>)"

section \<open>data_generation.py: Quad2DObstaclesDataModule\<close>

text \<open>
  The data module is a record of its attributes; \<open>dataset\<close>, \<open>train_data\<close> and
  \<open>validation_data\<close> exist only once \<open>prepare_data\<close> and \<open>setup\<close> have set them. A
  \<open>TensorDataset(x, safe_mask, unsafe_mask)\<close> is the triple of its tensors; indexing it
  with a slice returns the tuple of the three tensors, each sliced
  (\<open>TensorDataset.__getitem__\<close>), so \<open>train_data\<close> and \<open>validation_data\<close> are such
  tuples. Python's \<open>len\<close> of such a tuple is \<open>3\<close>; the number of samples it holds is
  the length of its first tensor.
  \<open>Quad2D.N_DIMS\<close> is defined outside these sources and is a parameter of \<open>init\<close>.
\<close>

type_synonym domain = "(real \<times> real) list"
type_synonym tensors = "tensor2 \<times> bool list \<times> bool list"

record data_module =
  N_samples :: int
  split :: real
  batch_size :: nat
  n_dims :: nat
  domains :: "domain list"
  N :: int
  dataset :: "tensors option"
  train_data :: "tensors option"
  validation_data :: "tensors option"











text \<open>
  \<open>setup\<close>, lines 159 to 164. \<open>split_pt = int(self.N * self.split)\<close> multiplies
  an \<open>int\<close> by a float: the integer is converted to a float and the product is one
  float multiplication. The slices \<open>dataset[split_pt:]\<close> and \<open>dataset[:split_pt]\<close> count a
  negative bound from the end and cut a bound at the length.
\<close>

definition split_point :: "data_module \<Rightarrow> error + int" where
  "split_point self =
     (case float_of_int (N self) of
        Inl e \<Rightarrow> Inl e
      | Inr n \<Rightarrow>
          (case float_mul n (split self) of
             None \<Rightarrow> Inl OverflowError
           | Some p \<Rightarrow> Inr (int_of_float p)))"

definition slice_bound :: "int \<Rightarrow> nat \<Rightarrow> nat" where
  "slice_bound k n = (if k < 0 then nat (max (int n + k) 0) else nat (min k (int n)))"

definition slice_from :: "int \<Rightarrow> 'a list \<Rightarrow> 'a list" where
  "slice_from k xs = drop (slice_bound k (length xs)) xs"

definition slice_to :: "int \<Rightarrow> 'a list \<Rightarrow> 'a list" where
  "slice_to k xs = take (slice_bound k (length xs)) xs"

definition getitem_from :: "int \<Rightarrow> tensors \<Rightarrow> tensors" where
  "getitem_from k t =
     (case t of (x, safe_mask, unsafe_mask) \<Rightarrow>
        (slice_from k x, slice_from k safe_mask, slice_from k unsafe_mask))"

definition getitem_to :: "int \<Rightarrow> tensors \<Rightarrow> tensors" where
  "getitem_to k t =
     (case t of (x, safe_mask, unsafe_mask) \<Rightarrow>
        (slice_to k x, slice_to k safe_mask, slice_to k unsafe_mask))"

definition setup_fn :: "data_module \<Rightarrow> error + data_module" where
  "setup_fn self =
     (case split_point self of
        Inl e \<Rightarrow> Inl e
      | Inr split_pt \<Rightarrow>
          (case dataset self of
             None \<Rightarrow> Inl AttributeError
           | Some ds \<Rightarrow>
               Inr (self\<lparr>train_data := Some (getitem_from split_pt ds),
                         validation_data := Some (getitem_to split_pt ds)\<rparr>)))"

section \<open>obs_mpc_controller.py: the convex programs\<close>

text \<open>
  The controller states two convex programs with cvxpy and hands them to its solver.
  cvxpy is not part of the repository: a program is data here, and the solver is a
  parameter of the controller. The variable \<open>P\<close> is \<open>cp.Variable((2, 2),
  symmetric=True)\<close> and \<open>x_target\<close> is \<open>cp.Variable(2)\<close>, so their values are a
  \<open>mat2\<close> (the two rows) and a \<open>vec2\<close>.
\<close>

type_synonym vec2 = "real \<times> real"
type_synonym mat2 = "vec2 \<times> vec2"

text \<open>\<open>quad_form v P\<close> is \<open>v\<^sup>T P v\<close>; \<open>mat_vec R v\<close> is \<open>R @ v\<close>.\<close>

definition quad_form :: "vec2 \<Rightarrow> mat2 \<Rightarrow> real" where
  "quad_form v P =
     (case v of (a, b) \<Rightarrow>
        (case P of ((p00, p01), (p10, p11)) \<Rightarrow>
           a * (p00 * a + p01 * b) + b * (p10 * a + p11 * b)))"

definition mat_vec :: "mat2 \<Rightarrow> vec2 \<Rightarrow> vec2" where
  "mat_vec R v =
     (case v of (a, b) \<Rightarrow>
        (case R of ((r00, r01), (r10, r11)) \<Rightarrow> (r00 * a + r01 * b, r10 * a + r11 * b)))"

definition symmetric2 :: "mat2 \<Rightarrow> bool" where
  "symmetric2 P = (case P of ((p00, p01), (p10, p11)) \<Rightarrow> p01 = p10)"

definition trace2 :: "mat2 \<Rightarrow> real" where
  "trace2 P = (case P of ((p00, p01), (p10, p11)) \<Rightarrow> p00 + p11)"

definition det2 :: "mat2 \<Rightarrow> real" where
  "det2 P = (case P of ((p00, p01), (p10, p11)) \<Rightarrow> p00 * p11 - p01 * p10)"

text \<open>
  \<open>psd_tol eps P\<close>: both eigenvalues of the symmetric part of \<open>P\<close> are at least
  \<open>- eps\<close>, written with the diagonal and the determinant of \<open>P + eps I\<close> so that it
  can be evaluated; \<open>psd_tol 0\<close> is positive semi-definiteness.
\<close>

definition psd_tol :: "real \<Rightarrow> mat2 \<Rightarrow> bool" where
  "psd_tol eps P =
     (case P of ((p00, p01), (p10, p11)) \<Rightarrow>
        0 \<le> p00 + eps \<and> 0 \<le> p11 + eps
        \<and> ((p01 + p10) / 2) * ((p01 + p10) / 2) \<le> (p00 + eps) * (p11 + eps))"

datatype constr =
    PSD
  | QuadFormP_ge vec2 real
  | QuadFormX_le mat2 real

datatype objective =
    Maximize_log_det_trace real
  | Minimize_sum_squares vec2 mat2

record problem =
  P_symmetric :: bool
  prob_objective :: objective
  prob_constraints :: "constr list"

text \<open>
  What \<open>prob.solve()\<close> leaves behind: \<open>prob.status\<close>, \<open>P.value\<close> and
  \<open>x_target.value\<close> (\<open>None\<close> for a variable that has no value).
\<close>

record solution =
  status :: string
  P_value :: "mat2 option"
  x_target_value :: "vec2 option"

type_synonym solver = "problem \<Rightarrow> solution"

text \<open>
  The meaning of a program. \<open>PSD\<close> is \<open>P >> 0\<close>, \<open>QuadFormP_ge o c\<close> is
  \<open>cp.quad_form(o, P) >= c\<close> on the variable \<open>P\<close>, \<open>QuadFormX_le A c\<close> is
  \<open>cp.quad_form(x_target, A) <= c\<close> on the variable \<open>x_target\<close> with \<open>A\<close> numeric.
  A solution satisfies a constraint up to the tolerance \<open>eps\<close>; \<open>eps = 0\<close> is exact.
\<close>

definition satisfies :: "real \<Rightarrow> solution \<Rightarrow> constr \<Rightarrow> bool" where
  "satisfies eps sol c =
     (case c of
        PSD \<Rightarrow> (case P_value sol of None \<Rightarrow> False | Some P \<Rightarrow> psd_tol eps P)
      | QuadFormP_ge o_i c \<Rightarrow>
          (case P_value sol of None \<Rightarrow> False | Some P \<Rightarrow> c - eps \<le> quad_form o_i P)
      | QuadFormX_le A c \<Rightarrow>
          (case x_target_value sol of None \<Rightarrow> False | Some xt \<Rightarrow> quad_form xt A \<le> c + eps))"

definition feasible :: "real \<Rightarrow> problem \<Rightarrow> solution \<Rightarrow> bool" where
  "feasible eps prob sol =
     (list_all (satisfies eps sol) (prob_constraints prob)
      \<and> (case P_value sol of None \<Rightarrow> True | Some P \<Rightarrow> \<not> P_symmetric prob \<or> symmetric2 P))"

definition objective_value :: "objective \<Rightarrow> solution \<Rightarrow> real option" where
  "objective_value obj sol =
     (case obj of
        Maximize_log_det_trace k \<Rightarrow>
          (case P_value sol of None \<Rightarrow> None | Some P \<Rightarrow> Some (ln (det2 P) - k * trace2 P))
      | Minimize_sum_squares batch_x rotation_mat \<Rightarrow>
          (case x_target_value sol of
             None \<Rightarrow> None
           | Some xt \<Rightarrow>
               (case mat_vec rotation_mat xt of (g0, g1) \<Rightarrow>
                  Some ((fst batch_x + g0) * (fst batch_x + g0)
                        + (snd batch_x + g1) * (snd batch_x + g1)))))"

text \<open>
  The contract of the solver, as the specification's glossary words it: a solution
  reported \<open>optimal\<close> satisfies every constraint of the program it was given, within
  the tolerance.
\<close>

definition solver_sound :: "real \<Rightarrow> solver \<Rightarrow> bool" where
  "solver_sound eps solve =
     (\<forall>prob. status (solve prob) = ''optimal'' \<longrightarrow> feasible eps prob (solve prob))"

section \<open>obs_mpc_controller.py: ObsMPCController\<close>

text \<open>
  The dynamics model is a collaborator: its control dimension, its observations
  (one \<open>obs_dim \<times> K\<close> tensor per batch element, as rows), its nominal controller and
  its control limits are fields of a record. \<open>control_limits\<close> is the pair as the
  collaborator returns it.
\<close>

record dynamics_model =
  n_controls :: nat
  get_observations :: "tensor2 \<Rightarrow> tensor2 list"
  u_nominal :: "tensor2 \<Rightarrow> tensor2"
  control_limits :: "vec \<times> vec"

text \<open>\<open>batch_obs.shape[-1]\<close> and \<open>batch_obs[:, point_idx]\<close>.\<close>

definition shape_last :: "tensor2 \<Rightarrow> nat" where
  "shape_last m = (case m of [] \<Rightarrow> 0 | r # _ \<Rightarrow> length r)"

definition column :: "tensor2 \<Rightarrow> nat \<Rightarrow> vec" where
  "column m j = map (\<lambda>r. r ! j) m"

text \<open>
  cvxpy takes a vector against the \<open>2 \<times> 2\<close> variable only when it has two entries,
  and raises otherwise.
\<close>

definition to_vec2 :: "vec \<Rightarrow> error + vec2" where
  "to_vec2 v = (case v of [a, b] \<Rightarrow> Inr (a, b) | _ \<Rightarrow> Inl ValueError)"

text \<open>Lines 82 to 87: \<open>constraints = [P >> 0]\<close>, then one constraint per detected point.\<close>

fun append_point_constraints :: "tensor2 \<Rightarrow> nat list \<Rightarrow> constr list \<Rightarrow> error + constr list" where
  "append_point_constraints batch_obs [] constraints = Inr constraints"
| "append_point_constraints batch_obs (point_idx # rest) constraints =
     (case to_vec2 (column batch_obs point_idx) of
        Inl e \<Rightarrow> Inl e
      | Inr o_i \<Rightarrow>
          append_point_constraints batch_obs rest (constraints @ [QuadFormP_ge o_i 1.25]))"

definition stage1_constraints :: "tensor2 \<Rightarrow> error + constr list" where
  "stage1_constraints batch_obs =
     append_point_constraints batch_obs [0..<shape_last batch_obs] [PSD]"

text \<open>Lines 90 to 92: \<open>cp.Problem(cp.Maximize(cp.log_det(P) - 100 * cp.trace(P)), constraints)\<close>.\<close>

definition stage1_problem :: "constr list \<Rightarrow> problem" where
  "stage1_problem constraints =
     \<lparr>P_symmetric = True, prob_objective = Maximize_log_det_trace 100,
      prob_constraints = constraints\<rparr>"

definition rotation_matrix :: "real \<Rightarrow> mat2" where
  "rotation_matrix theta = ((cos theta, - sin theta), (sin theta, cos theta))"

text \<open>
  Lines 114 to 120: the objective, \<open>constraints.append(cp.quad_form(x_target, P_opt) <=
  0.75)\<close> on the list that Stage 1 built, and \<open>cp.Problem(cp.Minimize(objective),
  constraints)\<close>.
\<close>

definition stage2_problem :: "constr list \<Rightarrow> vec2 \<Rightarrow> mat2 \<Rightarrow> mat2 \<Rightarrow> problem" where
  "stage2_problem constraints batch_x rotation_mat P_opt =
     \<lparr>P_symmetric = True, prob_objective = Minimize_sum_squares batch_x rotation_mat,
      prob_constraints = constraints @ [QuadFormX_le P_opt 0.75]\<rparr>"

text \<open>
  Lines 133 and 134: \<open>x_shifted\<close> is \<open>-x_target_opt\<close> (two entries) followed by
  \<open>x[batch_idx, 2]\<close>.
\<close>

definition shifted_state :: "vec2 \<Rightarrow> real \<Rightarrow> vec" where
  "shifted_state x_target_opt theta = [- fst x_target_opt, - snd x_target_opt] @ [theta]"

text \<open>
  Lines 135 to 137: \<open>u[batch_idx, :] = u_nominal(x_shifted.reshape(1, -1)).squeeze()\<close>.
  The collaborator returns one row for the one-row batch; a row of one entry is
  squeezed to a scalar and fills the whole row of \<open>u\<close>, any other row must have the
  length of the row it replaces.
\<close>

definition assign_row :: "tensor2 \<Rightarrow> nat \<Rightarrow> tensor2 \<Rightarrow> error + tensor2" where
  "assign_row u batch_idx r =
     (case r of
        [row] \<Rightarrow>
          if length row = length (u ! batch_idx) then Inr (u[batch_idx := row])
          else if length row = 1
            then Inr (u[batch_idx := replicate (length (u ! batch_idx)) (row ! 0)])
          else Inl RuntimeError
      | _ \<Rightarrow> Inl RuntimeError)"

text \<open>
  The body of the loop over \<open>batch_idx\<close>, lines 74 to 137; \<open>continue\<close> returns \<open>u\<close>
  as it is.
\<close>

definition loop_body ::
  "solver \<Rightarrow> dynamics_model \<Rightarrow> tensor2 \<Rightarrow> tensor2 list \<Rightarrow> nat \<Rightarrow> tensor2 \<Rightarrow> error + tensor2" where
  "loop_body solve dm x obs batch_idx u =
     (if length obs \<le> batch_idx then Inl IndexError
      else
        (let batch_obs = obs ! batch_idx;
             batch_x = take 2 (x ! batch_idx)
         in case stage1_constraints batch_obs of
              Inl e \<Rightarrow> Inl e
            | Inr constraints \<Rightarrow>
                (let sol = solve (stage1_problem constraints)
                 in if status sol \<noteq> ''optimal'' then Inr u
                    else
                      (let P_opt = P_value sol
                       in if length (x ! batch_idx) \<le> 2 then Inl IndexError
                          else
                            (let theta = x ! batch_idx ! 2;
                                 rotation_mat = rotation_matrix theta
                             in case to_vec2 batch_x of
                                  Inl e \<Rightarrow> Inl e
                                | Inr batch_x2 \<Rightarrow>
                                    (case P_opt of
                                       None \<Rightarrow> Inl ValueError
                                     | Some P_opt \<Rightarrow>
                                         (let sol2 = solve (stage2_problem constraints batch_x2
                                                              rotation_mat P_opt);
                                              x_target_opt = x_target_value sol2
                                          in if status sol2 \<noteq> ''optimal'' then Inr u
                                             else
                                               (case x_target_opt of
                                                  None \<Rightarrow> Inl TypeError
                                                | Some x_target_opt \<Rightarrow>
                                                    (let x_target_opt =
                                                           mat_vec rotation_mat x_target_opt;
                                                         x_shifted =
                                                           shifted_state x_target_opt theta
                                                     in assign_row u batch_idx
                                                          (u_nominal dm [x_shifted]))))))))))"

text \<open>\<open>for batch_idx in range(batch_size)\<close>: the body in turn, stopping at an exception.\<close>

fun for_range :: "(nat \<Rightarrow> 's \<Rightarrow> error + 's) \<Rightarrow> nat list \<Rightarrow> 's \<Rightarrow> error + 's" where
  "for_range body [] s = Inr s"
| "for_range body (i # rest) s =
     (case body i s of Inl e \<Rightarrow> Inl e | Inr s' \<Rightarrow> for_range body rest s')"

text \<open>Line 190: \<open>u[:, 0] *= 2.0\<close>; a tensor with no column has no column 0.\<close>

definition scale_velocities :: "nat \<Rightarrow> tensor2 \<Rightarrow> error + tensor2" where
  "scale_velocities n u =
     (if n = 0 then Inl IndexError else Inr (map (\<lambda>row. row[0 := row ! 0 * 2.0]) u))"

text \<open>
  Line 192: \<open>torch.clamp(input, min, max)\<close> is \<open>min(max(input, min), max)\<close>
  entry by entry, after broadcasting the last dimensions (sizes that are equal, or 1)
  to a common width.
\<close>

definition broadcast_width :: "nat \<Rightarrow> nat \<Rightarrow> nat \<Rightarrow> nat option" where
  "broadcast_width a b c =
     (let sizes = filter (\<lambda>k. k \<noteq> 1) [a, b, c]
      in case sizes of
           [] \<Rightarrow> Some 1
         | w # rest \<Rightarrow> if list_all (\<lambda>k. k = w) rest then Some w else None)"

definition expand :: "nat \<Rightarrow> vec \<Rightarrow> vec" where
  "expand w v = (if length v = 1 then replicate w (v ! 0) else v)"

definition clamp :: "nat \<Rightarrow> tensor2 \<Rightarrow> vec \<Rightarrow> vec \<Rightarrow> error + tensor2" where
  "clamp n input min_v max_v =
     (case broadcast_width n (length min_v) (length max_v) of
        None \<Rightarrow> Inl RuntimeError
      | Some w \<Rightarrow>
          Inr (map (\<lambda>row. map (\<lambda>j. min (max (expand w row ! j) (expand w min_v ! j))
                                       (expand w max_v ! j)) [0..<w]) input))"

text \<open>
  \<open>ObsMPCController.u\<close>, lines 60 to 194. The pair of the collaborator is unpacked as
  \<open>u_upper, u_lower = self.dynamics_model.control_limits\<close>.
\<close>

definition u :: "solver \<Rightarrow> dynamics_model \<Rightarrow> tensor2 \<Rightarrow> error + tensor2" where
  "u solve dm x =
     (let obs = get_observations dm x;
          batch_size = length x;
          u0 = replicate batch_size (replicate (n_controls dm) 0)
      in case for_range (loop_body solve dm x obs) [0..<batch_size] u0 of
           Inl e \<Rightarrow> Inl e
         | Inr u1 \<Rightarrow>
             (case scale_velocities (n_controls dm) u1 of
                Inl e \<Rightarrow> Inl e
              | Inr u2 \<Rightarrow>
                  (case control_limits dm of
                     (u_upper, u_lower) \<Rightarrow> clamp (n_controls dm) u2 u_lower u_upper)))"


section \<open>Concrete inputs\<close>


definition ex_domains :: "domain list" where
  "ex_domains = [[(0, 1), (0, 1)], [(- 1, 1), (2, 3)]]"

definition ex_dataset :: tensors where
  "ex_dataset =
     ([[1 / 4, 1 / 4], [3 / 4, 3 / 4], [- 1 / 2, 9 / 4], [1 / 2, 11 / 4]],
      [True, False, True, True], [False, False, False, False])"

definition ex_module :: data_module where
  "ex_module =
     \<lparr>N_samples = 2, split = 1 / 4, batch_size = 64, n_dims = 2, domains = ex_domains,
      N = 4, dataset = None, train_data = None, validation_data = None\<rparr>"

definition ex_module_prepared :: data_module where
  "ex_module_prepared = ex_module\<lparr>dataset := Some ex_dataset\<rparr>"









text \<open>
  A tensor of points on the boundaries of the safe and unsafe regions: the first five
  rows lie on an edge of a safe-exclusion box, at height \<open>-0.1\<close> or at norm \<open>4.5\<close>
  and meet the other safe conditions; row 5 lies on an edge of the ground box below the
  floor margin; the last six rows lie on the boundary of an unsafe box, at height
  \<open>-0.3\<close> or at norm \<open>5.0\<close>. The two lists are the masks the functions return on it.
\<close>

definition ex_boundary :: tensor2 where
  "ex_boundary =
     [[- 0.4, 0.3, 0, 0, 0, 0], [- 0.7, 0.6, 0, 0, 0, 0], [1.1, 1, 0, 0, 0, 0],
      [0, - 0.1, 0, 0, 0, 0], [4.5, 0, 0, 0, 0, 0], [- 0.4, - 0.2, 0, 0, 0, 0],
      [- 1.0, 0.2, 0, 0, 0, 0], [- 0.7, 0.5, 0, 0, 0, 0], [0.0, 1, 0, 0, 0, 0],
      [0.5, 1.4, 0, 0, 0, 0], [2, - 0.3, 0, 0, 0, 0], [3, 0, 4, 0, 0, 0]]"

definition ex_boundary_safe :: "bool list" where
  "ex_boundary_safe =
     [True, True, True, True, True, False, False, False, False, False, False, False]"

definition ex_boundary_unsafe :: "bool list" where
  "ex_boundary_unsafe =
     [False, False, False, False, False, False, True, True, True, True, True, True]"

text \<open>
  A solver that keeps its contract exactly: it proposes \<open>P = 2 I\<close> and, for Stage 2,
  \<open>x_target = - batch_x\<close>, and reports \<open>optimal\<close> only when that proposal satisfies
  every constraint of the program it was given.
\<close>

definition ex_candidate :: "problem \<Rightarrow> solution" where
  "ex_candidate prob =
     \<lparr>status = ''optimal'', P_value = Some ((2, 0), (0, 2)),
      x_target_value =
        (case prob_objective prob of
           Maximize_log_det_trace k \<Rightarrow> None
         | Minimize_sum_squares batch_x rotation_mat \<Rightarrow> Some (- fst batch_x, - snd batch_x))\<rparr>"

definition ex_solve :: solver where
  "ex_solve prob =
     (if feasible 0 prob (ex_candidate prob) then ex_candidate prob
      else \<lparr>status = ''infeasible'', P_value = None, x_target_value = None\<rparr>)"

text \<open>
  A dynamics model of two controls. It observes the points \<open>(1, 0)\<close> and \<open>(0, 1)\<close>
  from a state of height \<open>0\<close> and the point \<open>(1/2, 0)\<close> from any other state; its
  nominal controller returns \<open>(- x, - z)\<close>; its limits are \<open>[-3/4, 3/4]\<close> and
  \<open>[-1, 1]\<close>, returned as \<open>(upper, lower)\<close> in \<open>ex_dm\<close> and as \<open>(lower, upper)\<close> in
  \<open>ex_dm_lower_first\<close>. \<open>ex_echo\<close> has three controls and a nominal controller that
  returns the state it is given.
\<close>

definition ex_get_observations :: "tensor2 \<Rightarrow> tensor2 list" where
  "ex_get_observations xs =
     map (\<lambda>r. if r ! 1 = 0 then [[1, 0], [0, 1]] else [[1 / 2], [0]]) xs"

definition ex_dm :: dynamics_model where
  "ex_dm =
     \<lparr>n_controls = 2, get_observations = ex_get_observations,
      u_nominal = (\<lambda>xs. map (\<lambda>r. [- (r ! 0), - (r ! 1)]) xs),
      control_limits = ([3 / 4, 1], [- 3 / 4, - 1])\<rparr>"

definition ex_dm_lower_first :: dynamics_model where
  "ex_dm_lower_first = ex_dm\<lparr>control_limits := ([- 3 / 4, - 1], [3 / 4, 1])\<rparr>"

definition ex_echo :: dynamics_model where
  "ex_echo =
     \<lparr>n_controls = 3, get_observations = ex_get_observations,
      u_nominal = (\<lambda>xs. xs),
      control_limits = ([10, 10, 10], [- 10, - 10, - 10])\<rparr>"

text \<open>
  Batches: in \<open>ex_x\<close> the first element passes both stages, the second fails Stage 2
  (the proposal \<open>x_target = (-1, 0)\<close> is outside the shrunk ellipsoid) and the third
  fails Stage 1 (the point \<open>(1/2, 0)\<close> is inside the ellipsoid of \<open>2 I\<close>).
\<close>

definition ex_x :: tensor2 where
  "ex_x = [[1 / 2, 0, 0], [1, 0, 0], [0, 5, 0]]"

definition ex_x' :: tensor2 where
  "ex_x' = [[1 / 2, 0, 0], [0, 5, 0]]"

definition ex_x4 :: tensor2 where
  "ex_x4 = [[1 / 2, 0, 0, 7]]"

definition ex_cs :: "constr list" where
  "ex_cs = [PSD, QuadFormP_ge (1, 0) 1.25, QuadFormP_ge (0, 1) 1.25]"

definition ex_P :: mat2 where
  "ex_P = ((2, 0), (0, 2))"

definition ex_bad_solution :: solution where
  "ex_bad_solution = \<lparr>status = ''optimal'', P_value = None, x_target_value = Some (0, 0)\<rparr>"

definition ex_lower :: vec where
  "ex_lower = [- 3 / 4, - 1]"

definition ex_upper :: vec where
  "ex_upper = [3 / 4, 1]"

definition ex_out :: tensor2 where
  "ex_out = [[- 3 / 4, 0], [0, 0], [0, 0]]"

definition ex_out' :: tensor2 where
  "ex_out' = [[- 3 / 4, 0], [0, 0]]"

definition ex_w :: tensor2 where
  "ex_w = [[5, 5], [6, 6], [7, 7]]"

definition ex_cs_near :: "constr list" where
  "ex_cs_near = [PSD, QuadFormP_ge (1 / 2, 0) 1.25]"

section \<open>Properties of the masks\<close>

lemma norm_row_le_iff: "0 \<le> c \<Longrightarrow> norm_row r \<le> c \<longleftrightarrow> sum_squares r \<le> c * c"
proof -
  assume c: "0 \<le> c"
  have "sqrt (sum_squares r) \<le> c \<longleftrightarrow> sqrt (sum_squares r) \<le> sqrt (c * c)"
    using c by simp
  also have "\<dots> \<longleftrightarrow> sum_squares r \<le> c * c"
    by (rule real_sqrt_le_iff)
  finally show ?thesis by (simp add: norm_row_def)
qed

lemma norm_row_ge_iff: "0 \<le> c \<Longrightarrow> c \<le> norm_row r \<longleftrightarrow> c * c \<le> sum_squares r"
proof -
  assume c: "0 \<le> c"
  have "c \<le> sqrt (sum_squares r) \<longleftrightarrow> sqrt (c * c) \<le> sqrt (sum_squares r)"
    using c by simp
  also have "\<dots> \<longleftrightarrow> c * c \<le> sum_squares r"
    by (rule real_sqrt_le_iff)
  finally show ?thesis by (simp add: norm_row_def)
qed

lemma safe_unsafe_row_disjoint: "\<not> (safe_row r \<and> unsafe_row r)"
proof
  assume h: "safe_row r \<and> unsafe_row r"
  then have s1: "safe_floor_mask r" and s2: "safe_obs1_mask r"
    and s3: "safe_obs2_mask r" and s4: "safe_norm_mask r"
    by (simp_all add: safe_row_def)
  from h consider "unsafe_floor_mask r" | "unsafe_obs1_mask r"
    | "unsafe_obs2_mask r" | "unsafe_norm_mask r"
    by (auto simp add: unsafe_row_def)
  then show False
  proof cases
    case 1
    with s1 show False by (simp add: safe_floor_mask_def unsafe_floor_mask_def)
  next
    case 2
    with s2 show False by (auto simp add: safe_obs1_mask_def unsafe_obs1_mask_def)
  next
    case 3
    with s3 show False by (auto simp add: safe_obs2_mask_def unsafe_obs2_mask_def)
  next
    case 4
    with s4 show False by (simp add: safe_norm_mask_def unsafe_norm_mask_def)
  qed
qed

text \<open>
  C7. For every tensor of state points on which both mask functions return, no row is
  flagged safe and unsafe at once.
\<close>

theorem safe_unsafe_disjoint:
  assumes "safe_mask_fn x = Inr safe_mask"
    and "unsafe_mask_fn x = Inr unsafe_mask"
    and "i < length x"
  shows "\<not> (safe_mask ! i \<and> unsafe_mask ! i)"
proof -
  from assms(1) have s: "safe_mask = map safe_row x"
    by (simp add: safe_mask_fn_def split: if_splits)
  from assms(2) have u: "unsafe_mask = map unsafe_row x"
    by (simp add: unsafe_mask_fn_def split: if_splits)
  show ?thesis
    using assms(3) safe_unsafe_row_disjoint [of "x ! i"] by (simp add: s u)
qed

lemma safe_norm_mask_iff: "safe_norm_mask r \<longleftrightarrow> sum_squares r \<le> 20.25"
  unfolding safe_norm_mask_def using norm_row_le_iff [of "4.5" r] by simp

lemma unsafe_norm_mask_iff: "unsafe_norm_mask r \<longleftrightarrow> 25 \<le> sum_squares r"
  unfolding unsafe_norm_mask_def using norm_row_ge_iff [of "5.0" r] by simp

text \<open>The norm masks compare squares, which makes both masks computable.\<close>

declare safe_norm_mask_iff [code] unsafe_norm_mask_iff [code]

lemmas mask_defs = safe_row_def unsafe_row_def safe_floor_mask_def safe_obs1_mask_def
  safe_obs2_mask_def safe_norm_mask_iff unsafe_floor_mask_def unsafe_obs1_mask_def
  unsafe_obs2_mask_def unsafe_norm_mask_iff sum_squares_def

theorem safe_unsafe_disjoint_witness:
  "safe_mask_fn [[0, 0, 0, 0, 0, 0], [- 0.7, 0, 0, 0, 0, 0]] = Inr [True, False]
   \<and> unsafe_mask_fn [[0, 0, 0, 0, 0, 0], [- 0.7, 0, 0, 0, 0, 0]] = Inr [False, True]
   \<and> (1::nat) < length [[0, 0, 0, 0, 0, 0], [- 0.7, 0, 0, 0, 0, 0 :: real]]
   \<and> \<not> ([True, False] ! 1 \<and> [False, True] ! 1)"
proof -
  have a: "safe_mask_fn [[0, 0, 0, 0, 0, 0], [- 0.7, 0, 0, 0, 0, 0]] = Inr [True, False]"
    by (simp add: safe_mask_fn_def mask_defs)
  have b: "unsafe_mask_fn [[0, 0, 0, 0, 0, 0], [- 0.7, 0, 0, 0, 0, 0]] = Inr [False, True]"
    by (simp add: unsafe_mask_fn_def mask_defs)
  have c: "(1::nat) < length [[0, 0, 0, 0, 0, 0], [- 0.7, 0, 0, 0, 0, 0 :: real]]" by simp
  show ?thesis using a b c safe_unsafe_disjoint [OF a b c] by blast
qed

text \<open>
  C10. Every comparison of the two mask functions is non-strict. Take a tensor on which
  both functions return, and a row \<open>i\<close> of it. If the point lies on an edge line of a
  safe-exclusion box (the ground box \<open>[-1.1, -0.4] \<times> [-0.5, 0.6]\<close>, the airborne box
  \<open>[-0.1, 1.1] \<times> [0.7, 1.5]\<close>), or has height exactly \<open>-0.1\<close>, or norm exactly
  \<open>4.5\<close>, then that condition of \<open>safe_mask_fn\<close> holds: the flag \<open>safe_mask[i]\<close> is
  set exactly when the three other conditions hold. If the point lies on the boundary
  of an unsafe box (\<open>[-1.0, -0.5] \<times> [-0.4, 0.5]\<close>, \<open>[0.0, 1.0] \<times> [0.8, 1.4]\<close>), or has
  height exactly \<open>-0.3\<close>, or norm exactly \<open>5.0\<close>, then \<open>unsafe_mask[i]\<close> is set.
\<close>

theorem boundary_classification:
  assumes "safe_mask_fn x = Inr safe_mask"
    and "unsafe_mask_fn x = Inr unsafe_mask"
    and "i < length x"
  shows
    "(x ! i ! 0 = - 1.1 \<or> x ! i ! 0 = - 0.4 \<or> x ! i ! 1 = - 0.5 \<or> x ! i ! 1 = 0.6 \<longrightarrow>
        (safe_mask ! i \<longleftrightarrow>
           - 0.1 \<le> x ! i ! 1
           \<and> (x ! i ! 0 \<le> - 0.1 \<or> 1.1 \<le> x ! i ! 0 \<or> x ! i ! 1 \<le> 0.7 \<or> 1.5 \<le> x ! i ! 1)
           \<and> norm_row (x ! i) \<le> 4.5))
     \<and> (x ! i ! 0 = - 0.1 \<or> x ! i ! 0 = 1.1 \<or> x ! i ! 1 = 0.7 \<or> x ! i ! 1 = 1.5 \<longrightarrow>
        (safe_mask ! i \<longleftrightarrow>
           - 0.1 \<le> x ! i ! 1
           \<and> (x ! i ! 0 \<le> - 1.1 \<or> - 0.4 \<le> x ! i ! 0 \<or> x ! i ! 1 \<le> - 0.5 \<or> 0.6 \<le> x ! i ! 1)
           \<and> norm_row (x ! i) \<le> 4.5))
     \<and> (x ! i ! 1 = - 0.1 \<longrightarrow>
        (safe_mask ! i \<longleftrightarrow>
           (x ! i ! 0 \<le> - 1.1 \<or> - 0.4 \<le> x ! i ! 0 \<or> x ! i ! 1 \<le> - 0.5 \<or> 0.6 \<le> x ! i ! 1)
           \<and> (x ! i ! 0 \<le> - 0.1 \<or> 1.1 \<le> x ! i ! 0 \<or> x ! i ! 1 \<le> 0.7 \<or> 1.5 \<le> x ! i ! 1)
           \<and> norm_row (x ! i) \<le> 4.5))
     \<and> (norm_row (x ! i) = 4.5 \<longrightarrow>
        (safe_mask ! i \<longleftrightarrow>
           - 0.1 \<le> x ! i ! 1
           \<and> (x ! i ! 0 \<le> - 1.1 \<or> - 0.4 \<le> x ! i ! 0 \<or> x ! i ! 1 \<le> - 0.5 \<or> 0.6 \<le> x ! i ! 1)
           \<and> (x ! i ! 0 \<le> - 0.1 \<or> 1.1 \<le> x ! i ! 0 \<or> x ! i ! 1 \<le> 0.7 \<or> 1.5 \<le> x ! i ! 1)))
     \<and> ((x ! i ! 0 = - 1.0 \<or> x ! i ! 0 = - 0.5) \<and> - 0.4 \<le> x ! i ! 1 \<and> x ! i ! 1 \<le> 0.5 \<longrightarrow>
        unsafe_mask ! i)
     \<and> ((x ! i ! 1 = - 0.4 \<or> x ! i ! 1 = 0.5) \<and> - 1.0 \<le> x ! i ! 0 \<and> x ! i ! 0 \<le> - 0.5 \<longrightarrow>
        unsafe_mask ! i)
     \<and> ((x ! i ! 0 = 0.0 \<or> x ! i ! 0 = 1.0) \<and> 0.8 \<le> x ! i ! 1 \<and> x ! i ! 1 \<le> 1.4 \<longrightarrow>
        unsafe_mask ! i)
     \<and> ((x ! i ! 1 = 0.8 \<or> x ! i ! 1 = 1.4) \<and> 0.0 \<le> x ! i ! 0 \<and> x ! i ! 0 \<le> 1.0 \<longrightarrow>
        unsafe_mask ! i)
     \<and> (x ! i ! 1 = - 0.3 \<longrightarrow> unsafe_mask ! i)
     \<and> (norm_row (x ! i) = 5.0 \<longrightarrow> unsafe_mask ! i)"
proof -
  from assms(1) have s: "safe_mask = map safe_row x"
    by (simp add: safe_mask_fn_def split: if_splits)
  from assms(2) have u: "unsafe_mask = map unsafe_row x"
    by (simp add: unsafe_mask_fn_def split: if_splits)
  have si: "safe_mask ! i = safe_row (x ! i)" using assms(3) by (simp add: s)
  have ui: "unsafe_mask ! i = unsafe_row (x ! i)" using assms(3) by (simp add: u)
  show ?thesis
    unfolding si ui
    by (auto simp add: safe_row_def unsafe_row_def safe_floor_mask_def safe_obs1_mask_def
        safe_obs2_mask_def safe_norm_mask_def unsafe_floor_mask_def unsafe_obs1_mask_def
        unsafe_obs2_mask_def unsafe_norm_mask_def)
qed


lemma norm_row_4_5: "norm_row [4.5, 0, 0, 0, 0, 0] = 4.5"
  unfolding norm_row_def sum_squares_def
  by (rule real_sqrt_unique) (simp_all add: power2_eq_square)

lemma norm_row_5: "norm_row [3, 0, 4, 0, 0, 0] = 5.0"
  unfolding norm_row_def sum_squares_def
  by (rule real_sqrt_unique) (simp_all add: power2_eq_square)

lemma norm_row_le_4_5: "sum_squares r \<le> 20.25 \<Longrightarrow> norm_row r \<le> 4.5"
  using safe_norm_mask_iff [of r] unfolding safe_norm_mask_def by simp

lemma ex_boundary_safe_mask: "safe_mask_fn ex_boundary = Inr ex_boundary_safe"
  by (simp add: safe_mask_fn_def ex_boundary_def ex_boundary_safe_def mask_defs)

lemma ex_boundary_unsafe_mask: "unsafe_mask_fn ex_boundary = Inr ex_boundary_unsafe"
  by (simp add: unsafe_mask_fn_def ex_boundary_def ex_boundary_unsafe_def mask_defs)

theorem boundary_classification_witness:
  "safe_mask_fn ex_boundary = Inr ex_boundary_safe
   \<and> unsafe_mask_fn ex_boundary = Inr ex_boundary_unsafe
   \<and> ex_boundary ! 0 ! 0 = - 0.4 \<and> ex_boundary_safe ! 0
   \<and> ex_boundary ! 1 ! 1 = 0.6 \<and> ex_boundary_safe ! 1
   \<and> ex_boundary ! 2 ! 0 = 1.1 \<and> ex_boundary_safe ! 2
   \<and> ex_boundary ! 3 ! 1 = - 0.1 \<and> ex_boundary_safe ! 3
   \<and> norm_row (ex_boundary ! 4) = 4.5 \<and> ex_boundary_safe ! 4
   \<and> ex_boundary ! 5 ! 0 = - 0.4 \<and> \<not> - 0.1 \<le> ex_boundary ! 5 ! 1 \<and> \<not> ex_boundary_safe ! 5
   \<and> ex_boundary ! 6 ! 0 = - 1.0 \<and> ex_boundary_unsafe ! 6
   \<and> ex_boundary ! 7 ! 1 = 0.5 \<and> ex_boundary_unsafe ! 7
   \<and> ex_boundary ! 8 ! 0 = 0.0 \<and> ex_boundary_unsafe ! 8
   \<and> ex_boundary ! 9 ! 1 = 1.4 \<and> ex_boundary_unsafe ! 9
   \<and> ex_boundary ! 10 ! 1 = - 0.3 \<and> ex_boundary_unsafe ! 10
   \<and> norm_row (ex_boundary ! 11) = 5.0 \<and> ex_boundary_unsafe ! 11"
proof -
  note a = ex_boundary_safe_mask and b = ex_boundary_unsafe_mask
  have len: "length ex_boundary = 12" by (simp add: ex_boundary_def)
  have rows: "ex_boundary ! 0 = [- 0.4, 0.3, 0, 0, 0, 0]"
    "ex_boundary ! 1 = [- 0.7, 0.6, 0, 0, 0, 0]"
    "ex_boundary ! 2 = [1.1, 1, 0, 0, 0, 0]"
    "ex_boundary ! 3 = [0, - 0.1, 0, 0, 0, 0]"
    "ex_boundary ! 4 = [4.5, 0, 0, 0, 0, 0]"
    "ex_boundary ! 5 = [- 0.4, - 0.2, 0, 0, 0, 0]"
    "ex_boundary ! 6 = [- 1.0, 0.2, 0, 0, 0, 0]"
    "ex_boundary ! 7 = [- 0.7, 0.5, 0, 0, 0, 0]"
    "ex_boundary ! 8 = [0.0, 1, 0, 0, 0, 0]"
    "ex_boundary ! 9 = [0.5, 1.4, 0, 0, 0, 0]"
    "ex_boundary ! 10 = [2, - 0.3, 0, 0, 0, 0]"
    "ex_boundary ! 11 = [3, 0, 4, 0, 0, 0]"
    by (simp_all add: ex_boundary_def)
  have n: "norm_row (ex_boundary ! 0) \<le> 4.5" "norm_row (ex_boundary ! 1) \<le> 4.5"
    "norm_row (ex_boundary ! 2) \<le> 4.5" "norm_row (ex_boundary ! 3) \<le> 4.5"
    unfolding rows by (rule norm_row_le_4_5, simp add: sum_squares_def)+
  have e0: "ex_boundary ! 0 ! 0 = - 0.4"
    unfolding rows by simp
  have o0: "- 0.1 \<le> ex_boundary ! 0 ! 1 \<and> ex_boundary ! 0 ! 0 \<le> - 0.1"
    unfolding rows by simp
  from boundary_classification [OF a b, of 0] len e0 o0 n(1)
  have r0: "ex_boundary_safe ! 0" by simp
  have e1: "ex_boundary ! 1 ! 1 = 0.6"
    unfolding rows by simp
  have o1: "- 0.1 \<le> ex_boundary ! 1 ! 1 \<and> ex_boundary ! 1 ! 0 \<le> - 0.1"
    unfolding rows by simp
  from boundary_classification [OF a b, of 1] len e1 o1 n(2)
  have r1: "ex_boundary_safe ! 1" by simp
  have e2: "ex_boundary ! 2 ! 0 = 1.1"
    unfolding rows by simp
  have o2: "- 0.1 \<le> ex_boundary ! 2 ! 1 \<and> - 0.4 \<le> ex_boundary ! 2 ! 0"
    unfolding rows by simp
  from boundary_classification [OF a b, of 2] len e2 o2 n(3)
  have r2: "ex_boundary_safe ! 2" by simp
  have e3: "ex_boundary ! 3 ! 1 = - 0.1"
    unfolding rows by simp
  have o3: "- 0.4 \<le> ex_boundary ! 3 ! 0 \<and> ex_boundary ! 3 ! 1 \<le> 0.7"
    unfolding rows by simp
  from boundary_classification [OF a b, of 3] len e3 o3 n(4)
  have r3: "ex_boundary_safe ! 3" by simp
  have e4: "norm_row (ex_boundary ! 4) = 4.5"
    unfolding rows by (rule norm_row_4_5)
  have o4: "- 0.1 \<le> ex_boundary ! 4 ! 1 \<and> - 0.4 \<le> ex_boundary ! 4 ! 0
      \<and> 1.1 \<le> ex_boundary ! 4 ! 0"
    unfolding rows by simp
  from boundary_classification [OF a b, of 4] len e4 o4
  have r4: "ex_boundary_safe ! 4" by simp
  have e5: "ex_boundary ! 5 ! 0 = - 0.4"
    unfolding rows by simp
  have o5: "\<not> - 0.1 \<le> ex_boundary ! 5 ! 1"
    unfolding rows by simp
  from boundary_classification [OF a b, of 5] len e5 o5
  have r5: "\<not> ex_boundary_safe ! 5" by simp
  have e6: "ex_boundary ! 6 ! 0 = - 1.0"
    unfolding rows by simp
  have o6: "- 0.4 \<le> ex_boundary ! 6 ! 1 \<and> ex_boundary ! 6 ! 1 \<le> 0.5"
    unfolding rows by simp
  from boundary_classification [OF a b, of 6] len e6 o6
  have r6: "ex_boundary_unsafe ! 6" by simp
  have e7: "ex_boundary ! 7 ! 1 = 0.5"
    unfolding rows by simp
  have o7: "- 1.0 \<le> ex_boundary ! 7 ! 0 \<and> ex_boundary ! 7 ! 0 \<le> - 0.5"
    unfolding rows by simp
  from boundary_classification [OF a b, of 7] len e7 o7
  have r7: "ex_boundary_unsafe ! 7" by simp
  have e8: "ex_boundary ! 8 ! 0 = 0.0"
    unfolding rows by simp
  have o8: "0.8 \<le> ex_boundary ! 8 ! 1 \<and> ex_boundary ! 8 ! 1 \<le> 1.4"
    unfolding rows by simp
  from boundary_classification [OF a b, of 8] len e8 o8
  have r8: "ex_boundary_unsafe ! 8" by simp
  have e9: "ex_boundary ! 9 ! 1 = 1.4"
    unfolding rows by simp
  have o9: "0.0 \<le> ex_boundary ! 9 ! 0 \<and> ex_boundary ! 9 ! 0 \<le> 1.0"
    unfolding rows by simp
  from boundary_classification [OF a b, of 9] len e9 o9
  have r9: "ex_boundary_unsafe ! 9" by simp
  have e10: "ex_boundary ! 10 ! 1 = - 0.3"
    unfolding rows by simp
  from boundary_classification [OF a b, of 10] len e10
  have r10: "ex_boundary_unsafe ! 10" by simp
  have e11: "norm_row (ex_boundary ! 11) = 5.0"
    unfolding rows by (rule norm_row_5)
  from boundary_classification [OF a b, of 11] len e11
  have r11: "ex_boundary_unsafe ! 11" by simp
  from a b e0 r0 e1 r1 e2 r2 e3 r3 e4 r4 e5 o5 r5 e6 r6 e7 r7 e8 r8 e9 r9 e10 r10 e11 r11
  show ?thesis by (intro conjI)
qed

section \<open>Properties of the data module\<close>

lemma upt2: "[0..<2] = [0, Suc 0]"
  by (simp add: upt_rec numeral_2_eq_2)

subsection \<open>Rounding to a float\<close>


lemma pow2_pos: "0 < pow2 e"
  by (simp add: pow2_def)


lemma round_half_even_bounds: "\<lfloor>v\<rfloor> \<le> round_half_even v \<and> round_half_even v \<le> \<lceil>v\<rceil>"
proof -
  have "v - of_int \<lfloor>v\<rfloor> \<noteq> 0 \<Longrightarrow> \<lceil>v\<rceil> = \<lfloor>v\<rfloor> + 1"
    by (metis ceiling_altdef eq_iff_diff_eq_0 of_int_floor_cancel)
  moreover have "1 / 2 \<le> v - of_int \<lfloor>v\<rfloor> \<Longrightarrow> v - of_int \<lfloor>v\<rfloor> \<noteq> 0" by simp
  ultimately show ?thesis
    by (auto simp add: round_half_even_def Let_def) 
qed

lemma round_half_even_le: "v \<le> of_int m \<Longrightarrow> round_half_even v \<le> m"
  using round_half_even_bounds [of v] by (meson ceiling_le order_trans)

lemma round_half_even_ge: "of_int m \<le> v \<Longrightarrow> m \<le> round_half_even v"
  using round_half_even_bounds [of v] by (meson le_floor_iff order_trans)

lemma float64_exponent_le:
  assumes "0 < v" and "v < 2 ^ 53"
  shows "float64_exponent v \<le> 52"
proof -
  have "log 2 v < 53"
    using assms less_powr_iff [of 2 v 53] by (simp add: powr_realpow [symmetric] del: powr_realpow)
  then have "\<lfloor>log 2 v\<rfloor> \<le> 52" by linarith
  with assms show ?thesis by (simp add: float64_exponent_def)
qed

lemma round_float64_int_bounds:
  assumes v: "0 < v" "v < 2 ^ 53"
  shows "v \<le> of_int m \<Longrightarrow> round_float64 v \<le> of_int m"
    and "of_int m \<le> v \<Longrightarrow> of_int m \<le> round_float64 v"
proof -
  define e where "e = float64_exponent v"
  define k where "k = nat (52 - e)"
  have e: "e \<le> 52" unfolding e_def using v by (rule float64_exponent_le)
  have ulp: "pow2 (e - 52) = 1 / 2 ^ k"
  proof (cases "e = 52")
    case True
    then show ?thesis by (simp add: pow2_def k_def)
  next
    case False
    with e have "e - 52 < 0" by simp
    then have "pow2 (e - 52) = 1 / 2 ^ nat (- (e - 52))" by (simp add: pow2_def)
    then show ?thesis by (simp add: k_def)
  qed
  have r: "round_float64 v = of_int (round_half_even (v * 2 ^ k)) / 2 ^ k"
    using v(1) by (simp add: round_float64_def Let_def e_def [symmetric] ulp)
  {
    assume "v \<le> of_int m"
    then have "v * 2 ^ k \<le> of_int (m * 2 ^ k)" by simp
    then have "round_half_even (v * 2 ^ k) \<le> m * 2 ^ k" by (rule round_half_even_le)
    then have "of_int (round_half_even (v * 2 ^ k)) \<le> (of_int (m * 2 ^ k) :: real)"
      by (simp only: of_int_le_iff)
    then show "round_float64 v \<le> of_int m" by (simp add: r field_simps)
  }
  {
    assume "of_int m \<le> v"
    then have "of_int (m * 2 ^ k) \<le> v * 2 ^ k" by simp
    then have "m * 2 ^ k \<le> round_half_even (v * 2 ^ k)" by (rule round_half_even_ge)
    then have "(of_int (m * 2 ^ k) :: real) \<le> of_int (round_half_even (v * 2 ^ k))"
      by (simp only: of_int_le_iff)
    then show "of_int m \<le> round_float64 v" by (simp add: r field_simps)
  }
qed

lemma round_float64_of_int:
  assumes "0 \<le> n" and "n < 2 ^ 53"
  shows "round_float64 (of_int n) = of_int n"
proof (cases "n = 0")
  case True
  then show ?thesis by (simp add: round_float64_def)
next
  case False
  with assms have v: "0 < (of_int n :: real)" "(of_int n :: real) < 2 ^ 53"
    by simp_all
  from round_float64_int_bounds [OF v, of n] show ?thesis by simp
qed




subsection \<open>The sampled tensor\<close>











lemma mask_length:
  "safe_mask_fn x = Inr m \<Longrightarrow> length m = length x"
  "unsafe_mask_fn x = Inr m' \<Longrightarrow> length m' = length x"
  by (auto simp add: safe_mask_fn_def unsafe_mask_fn_def split: if_splits)

subsection \<open>The split\<close>




lemma round_float64_4: "round_float64 4 = 4"
  using round_float64_of_int [of 4] by simp


lemma round_float64_6: "round_float64 6 = 6"
  using round_float64_of_int [of 6] by simp

lemma round_float64_minus_1: "round_float64 (- 1) = - 1"
proof -
  have e: "float64_exponent (- 1) = 0"
    by (simp add: float64_exponent_def)
  have "round_half_even (- 1 / (1 / 2 ^ 52)) = - (2 ^ 52)"
    by (simp add: round_half_even_def Let_def)
  then show ?thesis
    by (simp add: round_float64_def Let_def e pow2_def)
qed







lemma ex_exact_06: "\<lfloor>(5404319552844595 / 2 ^ 53 :: real) * 5\<rfloor> = 2"
  by simp







text \<open>
  Outside \<open>0 \<le> s \<le> 1\<close> the slices still split the dataset, but a negative bound counts
  from the end and a bound beyond the length is cut: with four samples, \<open>s = -1/4\<close> cuts
  at \<open>-1\<close> and leaves three samples for validation, \<open>s = 3/2\<close> cuts at \<open>6\<close> and leaves
  all four.
\<close>

lemma ceiling_minus_1: "\<lceil>- 1 :: real\<rceil> = - 1"
  using ceiling_of_int [of "- 1", where ?'a = real] by simp

lemma setup_fn_negative_split:
  "setup_fn (ex_module_prepared\<lparr>split := - 1 / 4\<rparr>)
     = Inr (ex_module_prepared\<lparr>split := - 1 / 4,
              train_data := Some (getitem_from 3 ex_dataset),
              validation_data := Some (getitem_to 3 ex_dataset)\<rparr>)"
  by (simp add: setup_fn_def split_point_def ex_module_prepared_def ex_module_def
      ex_dataset_def float_of_int_def float_mul_def int_of_float_def round_float64_4
      round_float64_minus_1 ceiling_minus_1 getitem_from_def getitem_to_def slice_from_def slice_to_def
      slice_bound_def)

lemma setup_fn_large_split:
  "setup_fn (ex_module_prepared\<lparr>split := 3 / 2\<rparr>)
     = Inr (ex_module_prepared\<lparr>split := 3 / 2, train_data := Some ([], [], []),
                                validation_data := Some ex_dataset\<rparr>)"
  by (simp add: setup_fn_def split_point_def ex_module_prepared_def ex_module_def
      ex_dataset_def float_of_int_def float_mul_def int_of_float_def round_float64_4
      round_float64_6 getitem_from_def getitem_to_def slice_from_def slice_to_def
      slice_bound_def)

section \<open>Properties of the convex programs\<close>

text \<open>
  \<open>psd_tol\<close> is what it is meant to be: \<open>v\<^sup>T P v \<ge> - eps |v|\<^sup>2\<close> for every vector
  \<open>v\<close>, that is, no eigenvalue of the symmetric part of \<open>P\<close> below \<open>- eps\<close>.
\<close>

lemma quad_binary_nonneg_iff:
  fixes A s D :: real
  shows "(0 \<le> A \<and> 0 \<le> D \<and> s * s \<le> A * D) \<longleftrightarrow> (\<forall>a b. 0 \<le> A * (a * a) + 2 * s * (a * b) + D * (b * b))"
proof
  assume h: "0 \<le> A \<and> 0 \<le> D \<and> s * s \<le> A * D"
  show "\<forall>a b. 0 \<le> A * (a * a) + 2 * s * (a * b) + D * (b * b)"
  proof (intro allI)
    fix a b :: real
    show "0 \<le> A * (a * a) + 2 * s * (a * b) + D * (b * b)"
    proof (cases "A = 0")
      case True
      with h have "s * s \<le> 0" by simp
      with zero_le_square [of s] have "s * s = 0" by linarith
      then have "s = 0" by simp
      with True h show ?thesis by simp
    next
      case False
      with h have A: "0 < A" by simp
      have "A * (A * (a * a) + 2 * s * (a * b) + D * (b * b))
          = (A * a + s * b) * (A * a + s * b) + (A * D - s * s) * (b * b)"
        by (simp add: algebra_simps)
      moreover have "0 \<le> (A * a + s * b) * (A * a + s * b) + (A * D - s * s) * (b * b)"
      proof (rule add_nonneg_nonneg)
        show "0 \<le> (A * a + s * b) * (A * a + s * b)" by (rule zero_le_square)
        have "0 \<le> A * D - s * s" using h by simp
        moreover have "0 \<le> b * b" by (rule zero_le_square)
        ultimately show "0 \<le> (A * D - s * s) * (b * b)" by (rule mult_nonneg_nonneg)
      qed
      ultimately have "0 \<le> A * (A * (a * a) + 2 * s * (a * b) + D * (b * b))" by simp
      with A show ?thesis by (simp add: zero_le_mult_iff)
    qed
  qed
next
  assume q: "\<forall>a b. 0 \<le> A * (a * a) + 2 * s * (a * b) + D * (b * b)"
  from q [rule_format, of 1 0] have A: "0 \<le> A" by simp
  from q [rule_format, of 0 1] have D: "0 \<le> D" by simp
  have "s * s \<le> A * D"
  proof (cases "A = 0")
    case True
    have "s = 0"
    proof (rule ccontr)
      assume s: "s \<noteq> 0"
      from q [rule_format, of "- (D + 1) / (2 * s)" 1] True s
      have "0 \<le> - (D + 1) + D" by (simp add: field_simps)
      then show False by simp
    qed
    with True show ?thesis by simp
  next
    case False
    with A have A': "0 < A" by simp
    from q [rule_format, of s "- A"]
    have "0 \<le> A * (A * D - s * s)" by (simp add: algebra_simps)
    with A' have "0 \<le> A * D - s * s" by (simp add: zero_le_mult_iff)
    then show ?thesis by simp
  qed
  with A D show "0 \<le> A \<and> 0 \<le> D \<and> s * s \<le> A * D" by simp
qed

lemma psd_tol_iff:
  "psd_tol eps P \<longleftrightarrow> (\<forall>a b. - eps * (a * a + b * b) \<le> quad_form (a, b) P)"
proof -
  obtain p00 p01 p10 p11 where P: "P = ((p00, p01), (p10, p11))"
    by (metis surj_pair)
  have e: "quad_form (a, b) P + eps * (a * a + b * b)
      = (p00 + eps) * (a * a) + 2 * ((p01 + p10) / 2) * (a * b) + (p11 + eps) * (b * b)"
    for a b
    by (simp add: P quad_form_def algebra_simps)
  have "(\<forall>a b. - eps * (a * a + b * b) \<le> quad_form (a, b) P)
      \<longleftrightarrow> (\<forall>a b. 0 \<le> quad_form (a, b) P + eps * (a * a + b * b))"
  proof -
    have "- eps * (a * a + b * b) \<le> quad_form (a, b) P
        \<longleftrightarrow> 0 \<le> quad_form (a, b) P + eps * (a * a + b * b)" for a b
      by linarith
    then show ?thesis by simp
  qed
  also have "\<dots> \<longleftrightarrow> (\<forall>a b. 0 \<le> (p00 + eps) * (a * a) + 2 * ((p01 + p10) / 2) * (a * b)
                      + (p11 + eps) * (b * b))"
    by (simp only: e)
  also have "\<dots> \<longleftrightarrow> psd_tol eps P"
    unfolding quad_binary_nonneg_iff [symmetric] by (simp add: P psd_tol_def)
  finally show ?thesis by simp
qed

text \<open>
  The constraint list of Stage 1 holds \<open>P >> 0\<close> and, for every column of the
  observation, the constraint of that point.
\<close>

lemma append_point_constraints_sound:
  "append_point_constraints batch_obs idxs acc = Inr cs \<Longrightarrow>
     \<exists>os. cs = acc @ map (\<lambda>o_i. QuadFormP_ge o_i 1.25) os
        \<and> length os = length idxs
        \<and> (\<forall>k<length idxs. to_vec2 (column batch_obs (idxs ! k)) = Inr (os ! k))"
proof (induction idxs arbitrary: acc)
  case Nil
  then show ?case by simp
next
  case (Cons j rest)
  from Cons.prems obtain o_j where
    oj: "to_vec2 (column batch_obs j) = Inr o_j"
    and rec: "append_point_constraints batch_obs rest (acc @ [QuadFormP_ge o_j 1.25]) = Inr cs"
    by (auto split: sum.splits)
  from Cons.IH [OF rec] obtain os where
    os: "cs = (acc @ [QuadFormP_ge o_j 1.25]) @ map (\<lambda>o_i. QuadFormP_ge o_i 1.25) os"
    "length os = length rest"
    "\<forall>k<length rest. to_vec2 (column batch_obs (rest ! k)) = Inr (os ! k)"
    by blast
  have "\<forall>k<length (j # rest). to_vec2 (column batch_obs ((j # rest) ! k)) = Inr ((o_j # os) ! k)"
    using oj os(3) by (auto simp add: nth_Cons split: nat.splits)
  with os(1,2) show ?case
    by (intro exI [of _ "o_j # os"]) simp
qed

lemma stage1_constraints_sound:
  assumes "stage1_constraints batch_obs = Inr cs"
  shows "PSD \<in> set cs"
    and "\<forall>j<shape_last batch_obs.
           \<exists>o_j. to_vec2 (column batch_obs j) = Inr o_j \<and> QuadFormP_ge o_j 1.25 \<in> set cs"
proof -
  from append_point_constraints_sound [OF assms [unfolded stage1_constraints_def]]
  obtain os where
    os: "cs = [PSD] @ map (\<lambda>o_i. QuadFormP_ge o_i 1.25) os"
    "length os = length [0..<shape_last batch_obs]"
    "\<forall>k<length [0..<shape_last batch_obs].
        to_vec2 (column batch_obs ([0..<shape_last batch_obs] ! k)) = Inr (os ! k)"
    by blast
  from os(1) show "PSD \<in> set cs" by simp
  show "\<forall>j<shape_last batch_obs.
           \<exists>o_j. to_vec2 (column batch_obs j) = Inr o_j \<and> QuadFormP_ge o_j 1.25 \<in> set cs"
  proof (intro allI impI)
    fix j assume j: "j < shape_last batch_obs"
    with os(3) have "to_vec2 (column batch_obs j) = Inr (os ! j)" by simp
    moreover have "QuadFormP_ge (os ! j) 1.25 \<in> set cs"
      using os(1,2) j by simp
    ultimately show "\<exists>o_j. to_vec2 (column batch_obs j) = Inr o_j \<and> QuadFormP_ge o_j 1.25 \<in> set cs"
      by blast
  qed
qed

lemma feasible_member:
  "feasible eps prob sol \<Longrightarrow> c \<in> set (prob_constraints prob) \<Longrightarrow> satisfies eps sol c"
  by (simp add: feasible_def list_all_iff)

lemma feasible_stage2_iff:
  "feasible eps (stage2_problem cs batch_x rotation_mat P_opt) sol \<longleftrightarrow>
     feasible eps (stage1_problem cs) sol
     \<and> (\<exists>xt. x_target_value sol = Some xt \<and> quad_form xt P_opt \<le> 0.75 + eps)"
  by (auto simp add: feasible_def stage2_problem_def stage1_problem_def satisfies_def
      split: option.splits)

section \<open>The programs on the concrete inputs\<close>

lemma upt3: "[0..<3] = [0, 1, 2]"
  by (simp add: upt_rec numeral_3_eq_3)

lemma replicate3: "replicate 3 a = [a, a, a]"
  by (simp add: numeral_3_eq_3)

lemma replicate2: "replicate 2 a = [a, a]"
  by (simp add: numeral_2_eq_2)

lemma rot0: "mat_vec (rotation_matrix 0) v = v"
  by (cases v) (simp add: mat_vec_def rotation_matrix_def)

lemmas ctl_eval = stage1_constraints_def shape_last_def column_def to_vec2_def
  stage1_problem_def stage2_problem_def feasible_def satisfies_def psd_tol_def quad_form_def
  symmetric2_def rotation_matrix_def mat_vec_def shifted_state_def assign_row_def
  ex_solve_def ex_candidate_def upt2 upt3

lemma ex_solve_sound: "solver_sound 0 ex_solve"
  by (simp add: solver_sound_def ex_solve_def)

lemma ex_stage1_a: "stage1_constraints [[1, 0], [0, 1]]
    = Inr [PSD, QuadFormP_ge (1, 0) 1.25, QuadFormP_ge (0, 1) 1.25]"
  by (simp add: ctl_eval)

lemma ex_stage1_b: "stage1_constraints [[1 / 2], [0]] = Inr [PSD, QuadFormP_ge (1 / 2, 0) 1.25]"
  by (simp add: ctl_eval)

lemma ex_sol1_a:
  "ex_solve (stage1_problem [PSD, QuadFormP_ge (1, 0) 1.25, QuadFormP_ge (0, 1) 1.25])
     = \<lparr>status = ''optimal'', P_value = Some ((2, 0), (0, 2)), x_target_value = None\<rparr>"
  by (simp add: ctl_eval)

lemma ex_sol1_b:
  "ex_solve (stage1_problem [PSD, QuadFormP_ge (1 / 2, 0) 1.25])
     = \<lparr>status = ''infeasible'', P_value = None, x_target_value = None\<rparr>"
  by (simp add: ctl_eval)

lemma ex_stage1_cs: "stage1_constraints [[1, 0], [0, 1]] = Inr ex_cs"
  by (simp add: ex_cs_def ex_stage1_a)

lemma ex_sol1: "ex_solve (stage1_problem ex_cs)
     = \<lparr>status = ''optimal'', P_value = Some ex_P, x_target_value = None\<rparr>"
  unfolding ex_cs_def ex_P_def by (rule ex_sol1_a)

lemma ex_sol2:
  "ex_solve (stage2_problem ex_cs (1 / 2, 0) (rotation_matrix 0) ex_P)
     = \<lparr>status = ''optimal'', P_value = Some ex_P, x_target_value = Some (- 1 / 2, 0)\<rparr>"
  by (simp add: ex_cs_def ex_P_def ctl_eval)

lemma ex_sol2_far:
  "ex_solve (stage2_problem ex_cs (1, 0) (rotation_matrix 0) ex_P)
     = \<lparr>status = ''infeasible'', P_value = None, x_target_value = None\<rparr>"
  by (simp add: ex_cs_def ex_P_def ctl_eval)

section \<open>The loop over the batch\<close>

text \<open>
  The body of the loop either leaves \<open>u\<close> as it is (one of the two \<open>continue\<close>) or
  assigns row \<open>batch_idx\<close>; it never touches another row and never changes a shape.
\<close>

lemma assign_row_props:
  assumes "assign_row w i r = Inr w'"
  shows "length w' = length w" and "k \<noteq> i \<Longrightarrow> w' ! k = w ! k"
    and "i < length w \<Longrightarrow> length (w' ! i) = length (w ! i)"
  using assms
  by (auto simp add: assign_row_def split: list.splits if_splits)

lemma to_vec2_take2: "2 < length r \<Longrightarrow> to_vec2 (take 2 r) = Inr (r ! 0, r ! 1)"
proof -
  assume len: "2 < length r"
  then obtain a t1 where r: "r = a # t1" by (cases r) auto
  with len obtain b t2 where t1: "t1 = b # t2" by (cases t1) auto
  from r t1 show ?thesis by (simp add: to_vec2_def numeral_2_eq_2)
qed

lemma loop_body_stage1_skip:
  assumes "i < length obs" and "stage1_constraints (obs ! i) = Inr cs"
    and "status (solve (stage1_problem cs)) \<noteq> ''optimal''"
  shows "loop_body solve dm x obs i w = Inr w"
  using assms by (simp add: loop_body_def Let_def)

lemma loop_body_optimal:
  assumes "i < length obs" and "stage1_constraints (obs ! i) = Inr cs"
    and "status (solve (stage1_problem cs)) = ''optimal''"
    and "P_value (solve (stage1_problem cs)) = Some P_opt"
    and "2 < length (x ! i)"
  shows "loop_body solve dm x obs i w =
     (let theta = x ! i ! 2;
          sol2 = solve (stage2_problem cs (x ! i ! 0, x ! i ! 1) (rotation_matrix theta) P_opt)
      in if status sol2 \<noteq> ''optimal'' then Inr w
         else (case x_target_value sol2 of
                 None \<Rightarrow> Inl TypeError
               | Some xt \<Rightarrow>
                   assign_row w i
                     (u_nominal dm [shifted_state (mat_vec (rotation_matrix theta) xt) theta])))"
  using assms by (simp add: loop_body_def Let_def to_vec2_take2 split: option.splits)

lemma loop_body_props:
  assumes "loop_body solve dm x obs i w = Inr w'"
  shows "length w' = length w" and "k \<noteq> i \<Longrightarrow> w' ! k = w ! k"
    and "i < length w \<Longrightarrow> length (w' ! i) = length (w ! i)"
  using assms
  by (auto simp add: loop_body_def Let_def
      split: if_splits sum.splits option.splits dest: assign_row_props)

lemma loop_body_cases:
  assumes "loop_body solve dm x obs i v = Inr v'"
  obtains
    (stage1_skip) cs where "i < length obs" "stage1_constraints (obs ! i) = Inr cs"
      "status (solve (stage1_problem cs)) \<noteq> ''optimal''" "v' = v"
  | (stage2_skip) cs P_opt where "i < length obs" "stage1_constraints (obs ! i) = Inr cs"
      "status (solve (stage1_problem cs)) = ''optimal''"
      "P_value (solve (stage1_problem cs)) = Some P_opt" "2 < length (x ! i)"
      "status (solve (stage2_problem cs (x ! i ! 0, x ! i ! 1) (rotation_matrix (x ! i ! 2)) P_opt))
         \<noteq> ''optimal''"
      "v' = v"
  | (command) cs P_opt xt where "i < length obs" "stage1_constraints (obs ! i) = Inr cs"
      "status (solve (stage1_problem cs)) = ''optimal''"
      "P_value (solve (stage1_problem cs)) = Some P_opt" "2 < length (x ! i)"
      "status (solve (stage2_problem cs (x ! i ! 0, x ! i ! 1) (rotation_matrix (x ! i ! 2)) P_opt))
         = ''optimal''"
      "x_target_value
         (solve (stage2_problem cs (x ! i ! 0, x ! i ! 1) (rotation_matrix (x ! i ! 2)) P_opt))
         = Some xt"
      "assign_row v i
         (u_nominal dm
            [shifted_state (mat_vec (rotation_matrix (x ! i ! 2)) xt) (x ! i ! 2)]) = Inr v'"
proof -
  from assms have i: "i < length obs"
    by (simp add: loop_body_def split: if_splits)
  from assms i obtain cs where cs: "stage1_constraints (obs ! i) = Inr cs"
    by (auto simp add: loop_body_def Let_def split: sum.splits)
  show ?thesis
  proof (cases "status (solve (stage1_problem cs)) = ''optimal''")
    case False
    have "loop_body solve dm x obs i v = Inr v"
      using i cs False by (rule loop_body_stage1_skip)
    with assms have "v' = v" by simp
    with stage1_skip [OF i cs False] show ?thesis .
  next
    case True
    from assms i cs True have len: "2 < length (x ! i)"
      by (auto simp add: loop_body_def Let_def split: if_splits)
    from assms i cs True len obtain P_opt where P: "P_value (solve (stage1_problem cs)) = Some P_opt"
      by (auto simp add: loop_body_def Let_def to_vec2_take2 split: option.splits)
    have eq: "loop_body solve dm x obs i v =
       (let theta = x ! i ! 2;
            sol2 = solve (stage2_problem cs (x ! i ! 0, x ! i ! 1) (rotation_matrix theta) P_opt)
        in if status sol2 \<noteq> ''optimal'' then Inr v
           else (case x_target_value sol2 of
                   None \<Rightarrow> Inl TypeError
                 | Some xt \<Rightarrow>
                     assign_row v i
                       (u_nominal dm [shifted_state (mat_vec (rotation_matrix theta) xt) theta])))"
      using i cs True P len by (rule loop_body_optimal)
    let ?sol2 = "solve (stage2_problem cs (x ! i ! 0, x ! i ! 1) (rotation_matrix (x ! i ! 2)) P_opt)"
    show ?thesis
    proof (cases "status ?sol2 = ''optimal''")
      case False
      with eq assms have "v' = v" by (simp add: Let_def)
      with stage2_skip [OF i cs True P len False] show ?thesis .
    next
      case opt2: True
      with eq assms obtain xt where xt: "x_target_value ?sol2 = Some xt"
        by (auto simp add: Let_def split: option.splits)
      with eq assms opt2 have
        "assign_row v i
           (u_nominal dm [shifted_state (mat_vec (rotation_matrix (x ! i ! 2)) xt) (x ! i ! 2)])
           = Inr v'"
        by (simp add: Let_def)
      with command [OF i cs True P len opt2 xt] show ?thesis .
    qed
  qed
qed

lemma for_range_props:
  assumes "for_range (loop_body solve dm x obs) idxs w = Inr w'"
  shows "length w' = length w"
    and "k \<notin> set idxs \<Longrightarrow> w' ! k = w ! k"
    and "k < length w \<Longrightarrow> length (w' ! k) = length (w ! k)"
  using assms
proof (induction idxs arbitrary: w)
  case Nil
  {
    case 1 then show ?case by simp
  next
    case 2 then show ?case by simp
  next
    case 3 then show ?case by simp
  }
next
  case (Cons j rest)
  {
    case 1
    then obtain w1 where b: "loop_body solve dm x obs j w = Inr w1"
      and r: "for_range (loop_body solve dm x obs) rest w1 = Inr w'"
      by (auto split: sum.splits)
    from Cons.IH(1) [OF r] loop_body_props(1) [OF b] show ?case by simp
  next
    case 2
    then obtain w1 where b: "loop_body solve dm x obs j w = Inr w1"
      and r: "for_range (loop_body solve dm x obs) rest w1 = Inr w'"
      by (auto split: sum.splits)
    from 2 have "k \<noteq> j" "k \<notin> set rest" by auto
    with Cons.IH(2) [OF _ r] loop_body_props(2) [OF b] show ?case by simp
  next
    case 3
    then obtain w1 where b: "loop_body solve dm x obs j w = Inr w1"
      and r: "for_range (loop_body solve dm x obs) rest w1 = Inr w'"
      by (auto split: sum.splits)
    have l1: "length w1 = length w" by (rule loop_body_props(1) [OF b])
    have "length (w1 ! k) = length (w ! k)"
    proof (cases "k = j")
      case True
      with 3 loop_body_props(3) [OF b] show ?thesis by simp
    next
      case False
      with loop_body_props(2) [OF b] show ?thesis by simp
    qed
    with Cons.IH(3) [OF _ r] l1 3 show ?case by simp
  }
qed

lemma for_range_at:
  assumes "for_range (loop_body solve dm x obs) idxs w = Inr w'"
    and "distinct idxs" and "i \<in> set idxs"
  shows "\<exists>v v'. loop_body solve dm x obs i v = Inr v' \<and> v ! i = w ! i \<and> w' ! i = v' ! i
           \<and> length v = length w"
  using assms
proof (induction idxs arbitrary: w)
  case Nil
  then show ?case by simp
next
  case (Cons j rest)
  from Cons.prems(1) obtain w1 where b: "loop_body solve dm x obs j w = Inr w1"
    and r: "for_range (loop_body solve dm x obs) rest w1 = Inr w'"
    by (auto split: sum.splits)
  show ?case
  proof (cases "i = j")
    case True
    with Cons.prems(2) have "i \<notin> set rest" by simp
    from for_range_props(2) [OF r this] have "w' ! i = w1 ! i" .
    with b True show ?thesis by blast
  next
    case False
    with Cons.prems have "distinct rest" "i \<in> set rest" by auto
    from Cons.IH [OF r this] obtain v v' where
      h: "loop_body solve dm x obs i v = Inr v'" "v ! i = w1 ! i" "w' ! i = v' ! i"
      "length v = length w1"
      by blast
    from loop_body_props(2) [OF b, of i] False have "w1 ! i = w ! i" by simp
    with h loop_body_props(1) [OF b] show ?thesis by (intro exI [of _ v] exI [of _ v']) simp
  qed
qed

text \<open>
  The row that the body leaves at \<open>batch_idx\<close> depends on the element's own state
  and observation only.
\<close>

lemma assign_row_determined:
  assumes "assign_row v i r = Inr v'" and "assign_row y i r = Inr y'"
    and "v ! i = y ! i" and "i < length v" and "i < length y"
  shows "v' ! i = y' ! i"
  using assms by (auto simp add: assign_row_def split: list.splits if_splits)

lemma loop_body_row_determined:
  assumes a: "loop_body solve dm x obs i v = Inr v'"
    and b: "loop_body solve dm x' obs' i y = Inr y'"
    and x: "x ! i = x' ! i" and o: "obs ! i = obs' ! i"
    and vy: "v ! i = y ! i" and iv: "i < length v" and iy: "i < length y"
  shows "v' ! i = y' ! i"
proof -
  from b have i': "i < length obs'"
    by (simp add: loop_body_def split: if_splits)
  from a show ?thesis
  proof (cases rule: loop_body_cases)
    case (stage1_skip cs)
    from stage1_skip(2) o have "stage1_constraints (obs' ! i) = Inr cs" by simp
    with i' have "loop_body solve dm x' obs' i y = Inr y"
      using stage1_skip(3) by (rule loop_body_stage1_skip)
    with b stage1_skip(4) vy show ?thesis by simp
  next
    case (stage2_skip cs P_opt)
    from stage2_skip(2) o have cs: "stage1_constraints (obs' ! i) = Inr cs" by simp
    from stage2_skip(5) x have len: "2 < length (x' ! i)" by simp
    have "loop_body solve dm x' obs' i y =
       (let theta = x' ! i ! 2;
            sol2 = solve (stage2_problem cs (x' ! i ! 0, x' ! i ! 1) (rotation_matrix theta) P_opt)
        in if status sol2 \<noteq> ''optimal'' then Inr y
           else (case x_target_value sol2 of
                   None \<Rightarrow> Inl TypeError
                 | Some xt \<Rightarrow>
                     assign_row y i
                       (u_nominal dm [shifted_state (mat_vec (rotation_matrix theta) xt) theta])))"
      using i' cs stage2_skip(3) stage2_skip(4) len by (rule loop_body_optimal)
    with stage2_skip(6) x have "loop_body solve dm x' obs' i y = Inr y"
      by (simp add: Let_def)
    with b stage2_skip(7) vy show ?thesis by simp
  next
    case (command cs P_opt xt)
    from command(2) o have cs: "stage1_constraints (obs' ! i) = Inr cs" by simp
    from command(5) x have len: "2 < length (x' ! i)" by simp
    have "loop_body solve dm x' obs' i y =
       (let theta = x' ! i ! 2;
            sol2 = solve (stage2_problem cs (x' ! i ! 0, x' ! i ! 1) (rotation_matrix theta) P_opt)
        in if status sol2 \<noteq> ''optimal'' then Inr y
           else (case x_target_value sol2 of
                   None \<Rightarrow> Inl TypeError
                 | Some xt \<Rightarrow>
                     assign_row y i
                       (u_nominal dm [shifted_state (mat_vec (rotation_matrix theta) xt) theta])))"
      using i' cs command(3) command(4) len by (rule loop_body_optimal)
    with command(6,7) x have
      "loop_body solve dm x' obs' i y =
         assign_row y i
           (u_nominal dm [shifted_state (mat_vec (rotation_matrix (x ! i ! 2)) xt) (x ! i ! 2)])"
      by (simp add: Let_def)
    with b have
      "assign_row y i
           (u_nominal dm [shifted_state (mat_vec (rotation_matrix (x ! i ! 2)) xt) (x ! i ! 2)])
         = Inr y'"
      by simp
    with command(8) show ?thesis using vy iv iy by (rule assign_row_determined)
  qed
qed

lemma loop_body_nominal_only:
  assumes "u_nominal dm' = u_nominal dm"
  shows "loop_body solve dm' = loop_body solve dm"
  by (intro ext) (simp only: loop_body_def assms)

text \<open>
  After the loop: the gain on column 0 and the clamp work row by row.
\<close>

lemma scale_velocities_rows:
  assumes "scale_velocities n w = Inr w'"
  shows "length w' = length w" and "0 < n"
    and "i < length w \<Longrightarrow> w' ! i = (w ! i)[0 := w ! i ! 0 * 2]"
  using assms by (auto simp add: scale_velocities_def split: if_splits)

lemma broadcast_width_same: "broadcast_width n n n = Some n"
  by (simp add: broadcast_width_def)

lemma expand_same: "length v = n \<Longrightarrow> expand n v = v"
  by (cases v) (auto simp add: expand_def)

lemma clamp_rows:
  assumes "clamp n w min_v max_v = Inr out"
  shows "length out = length w"
    and "i < length w \<Longrightarrow> clamp n [w ! i] min_v max_v = Inr [out ! i]"
  using assms by (auto simp add: clamp_def split: option.splits)

lemma clamp_entries:
  assumes "clamp n w min_v max_v = Inr out" and "length min_v = n" and "length max_v = n"
    and "i < length out"
  shows "length (out ! i) = n"
    and "j < n \<Longrightarrow> out ! i ! j = min (max (expand n (w ! i) ! j) (min_v ! j)) (max_v ! j)"
  using assms by (auto simp add: clamp_def broadcast_width_same expand_same)

lemma u_unfold:
  assumes "u solve dm x = Inr out"
  obtains u1 u2 where
    "for_range (loop_body solve dm x (get_observations dm x)) [0..<length x]
       (replicate (length x) (replicate (n_controls dm) 0)) = Inr u1"
    "scale_velocities (n_controls dm) u1 = Inr u2"
    "clamp (n_controls dm) u2 (snd (control_limits dm)) (fst (control_limits dm)) = Inr out"
  using assms
  by (auto simp add: u_def Let_def split: sum.splits prod.splits)

lemma u_shape:
  assumes "u solve dm x = Inr out"
  shows "length out = length x"
proof -
  from assms obtain u1 u2 where
    l: "for_range (loop_body solve dm x (get_observations dm x)) [0..<length x]
       (replicate (length x) (replicate (n_controls dm) 0)) = Inr u1"
    and s: "scale_velocities (n_controls dm) u1 = Inr u2"
    and c: "clamp (n_controls dm) u2 (snd (control_limits dm)) (fst (control_limits dm)) = Inr out"
    by (rule u_unfold)
  from for_range_props(1) [OF l] scale_velocities_rows(1) [OF s] clamp_rows(1) [OF c]
  show ?thesis by simp
qed

lemma u_row:
  assumes "u solve dm x = Inr out" and "i < length x"
  obtains v v' z where
    "loop_body solve dm x (get_observations dm x) i v = Inr v'"
    "v ! i = replicate (n_controls dm) 0" "i < length v"
    "scale_velocities (n_controls dm) [v' ! i] = Inr z"
    "clamp (n_controls dm) z (snd (control_limits dm)) (fst (control_limits dm)) = Inr [out ! i]"
proof -
  let ?n = "n_controls dm"
  let ?u0 = "replicate (length x) (replicate ?n (0::real))"
  from assms(1) obtain u1 u2 where
    l: "for_range (loop_body solve dm x (get_observations dm x)) [0..<length x] ?u0 = Inr u1"
    and s: "scale_velocities ?n u1 = Inr u2"
    and c: "clamp ?n u2 (snd (control_limits dm)) (fst (control_limits dm)) = Inr out"
    by (rule u_unfold)
  have "distinct [0..<length x]" "i \<in> set [0..<length x]" using assms(2) by simp_all
  from for_range_at [OF l this] obtain v v' where
    b: "loop_body solve dm x (get_observations dm x) i v = Inr v'"
    and v: "v ! i = ?u0 ! i" "u1 ! i = v' ! i" "length v = length ?u0"
    by blast
  from v assms(2) have v0: "v ! i = replicate ?n 0" and iv: "i < length v" by simp_all
  have l1: "length u1 = length x" using for_range_props(1) [OF l] by simp
  with assms(2) have i1: "i < length u1" by simp
  from scale_velocities_rows [OF s] i1 have
    n: "0 < ?n" and r2: "u2 ! i = (u1 ! i)[0 := u1 ! i ! 0 * 2]" and l2: "length u2 = length u1"
    by simp_all
  from n r2 v(2) have sc: "scale_velocities ?n [v' ! i] = Inr [u2 ! i]"
    by (simp add: scale_velocities_def)
  from clamp_rows(2) [OF c] i1 l2 have
    "clamp ?n [u2 ! i] (snd (control_limits dm)) (fst (control_limits dm)) = Inr [out ! i]"
    by simp
  with b v0 iv sc show ?thesis by (rule that)
qed

section \<open>The controller on the concrete inputs\<close>

lemma ex_body0:
  "loop_body ex_solve ex_dm ex_x (ex_get_observations ex_x) 0 w
     = assign_row w 0 [[- 1 / 2, 0]]"
  by (simp add: loop_body_def Let_def ex_x_def ex_get_observations_def ex_dm_def ctl_eval
       del: assign_row_def)

lemma ex_body1:
  "loop_body ex_solve ex_dm ex_x (ex_get_observations ex_x) (Suc 0) w = Inr w"
  by (simp add: loop_body_def Let_def ex_x_def ex_get_observations_def ex_dm_def ctl_eval)

lemma ex_body2:
  "loop_body ex_solve ex_dm ex_x (ex_get_observations ex_x) 2 w = Inr w"
  by (simp add: loop_body_def Let_def ex_x_def ex_get_observations_def ex_dm_def ctl_eval)

lemma ex_loop:
  "for_range (loop_body ex_solve ex_dm ex_x (ex_get_observations ex_x)) [0, 1, 2]
     [[0, 0], [0, 0], [0, 0]] = Inr [[- 1 / 2, 0], [0, 0], [0, 0]]"
  by (simp add: ex_body0 ex_body1 ex_body2 assign_row_def)

lemma ex_u: "u ex_solve ex_dm ex_x = Inr [[- 3 / 4, 0], [0, 0], [0, 0]]"
proof -
  have g: "get_observations ex_dm = ex_get_observations" "n_controls ex_dm = 2"
    "control_limits ex_dm = ([3 / 4, 1], [- 3 / 4, - 1])"
    by (simp_all add: ex_dm_def)
  have l: "length ex_x = 3" by (simp add: ex_x_def)
  have loop: "for_range (loop_body ex_solve ex_dm ex_x (get_observations ex_dm ex_x))
      [0..<length ex_x] (replicate (length ex_x) (replicate (n_controls ex_dm) 0))
      = Inr [[- 1 / 2, 0], [0, 0], [0, 0]]"
    unfolding g l upt3 replicate3 replicate2 by (rule ex_loop)
  show ?thesis
    unfolding u_def Let_def loop
    by (simp add: g upt2 scale_velocities_def clamp_def broadcast_width_def expand_def)
qed

lemma ex_u_lower_first:
  "u ex_solve ex_dm_lower_first ex_x = Inr [[- 3 / 4, - 1], [- 3 / 4, - 1], [- 3 / 4, - 1]]"
proof -
  have g: "get_observations ex_dm_lower_first = ex_get_observations"
    "n_controls ex_dm_lower_first = 2"
    "control_limits ex_dm_lower_first = ([- 3 / 4, - 1], [3 / 4, 1])"
    by (simp_all add: ex_dm_lower_first_def ex_dm_def)
  have l: "length ex_x = 3" by (simp add: ex_x_def)
  have b: "loop_body ex_solve ex_dm_lower_first ex_x = loop_body ex_solve ex_dm ex_x"
    using loop_body_nominal_only [of ex_dm_lower_first ex_dm ex_solve]
    by (simp add: ex_dm_lower_first_def)
  have loop: "for_range (loop_body ex_solve ex_dm_lower_first ex_x
        (get_observations ex_dm_lower_first ex_x))
      [0..<length ex_x] (replicate (length ex_x) (replicate (n_controls ex_dm_lower_first) 0))
      = Inr [[- 1 / 2, 0], [0, 0], [0, 0]]"
    unfolding g l upt3 replicate3 replicate2 b by (rule ex_loop)
  show ?thesis
    unfolding u_def Let_def loop
    by (simp add: g upt2 scale_velocities_def clamp_def broadcast_width_def expand_def)
qed

lemma ex_u': "u ex_solve ex_dm ex_x' = Inr ex_out'"
proof -
  have g: "get_observations ex_dm = ex_get_observations" "n_controls ex_dm = 2"
    "control_limits ex_dm = ([3 / 4, 1], [- 3 / 4, - 1])"
    by (simp_all add: ex_dm_def)
  have l: "length ex_x' = 2" by (simp add: ex_x'_def)
  have b0: "loop_body ex_solve ex_dm ex_x' (ex_get_observations ex_x') 0 [[0, 0], [0, 0]]
      = Inr [[- 1 / 2, 0], [0, 0]]"
    by (simp add: loop_body_def Let_def ex_x'_def ex_get_observations_def ex_dm_def ctl_eval)
  have b1: "loop_body ex_solve ex_dm ex_x' (ex_get_observations ex_x') 1
      [[- 1 / 2, 0], [0, 0]] = Inr [[- 1 / 2, 0], [0, 0]]"
    by (simp add: loop_body_def Let_def ex_x'_def ex_get_observations_def ex_dm_def ctl_eval)
  have loop: "for_range (loop_body ex_solve ex_dm ex_x' (get_observations ex_dm ex_x'))
      [0..<length ex_x'] (replicate (length ex_x') (replicate (n_controls ex_dm) 0))
      = Inr [[- 1 / 2, 0], [0, 0]]"
    unfolding g l upt2 replicate2 using b0 b1 by simp
  show ?thesis
    unfolding u_def Let_def loop
    by (simp add: g upt2 scale_velocities_def clamp_def broadcast_width_def expand_def
        ex_out'_def)
qed

lemma ex_body_echo:
  "loop_body ex_solve ex_echo ex_x4 (ex_get_observations ex_x4) 0 [[0, 0, 0]]
     = Inr [[1 / 2, 0, 0]]"
  by (simp add: loop_body_def Let_def ex_x4_def ex_get_observations_def ex_echo_def ctl_eval)

section \<open>Properties of the controller\<close>

text \<open>
  C1. Whenever \<open>u\<close> returns, every component of every row of the command lies in
  \<open>[lower, upper]\<close>, whatever the solver did, for limits \<open>lower \<le> upper\<close> of the
  control dimension. This holds when the collaborator returns the pair as
  \<open>(lower, upper)\<close>, and also when it returns \<open>(upper, lower)\<close>, the order in which
  line 191 unpacks it.
\<close>

theorem actuator_bounds:
  assumes "u solve dm x = Inr out"
    and "control_limits dm = (lower, upper) \<or> control_limits dm = (upper, lower)"
    and "length lower = n_controls dm" and "length upper = n_controls dm"
    and "list_all2 (\<le>) lower upper"
    and "i < length out" and "j < length (out ! i)"
  shows "lower ! j \<le> out ! i ! j \<and> out ! i ! j \<le> upper ! j"
proof -
  from assms(1) obtain u1 u2 where
    c: "clamp (n_controls dm) u2 (snd (control_limits dm)) (fst (control_limits dm)) = Inr out"
    by (rule u_unfold)
  let ?n = "n_controls dm"
  have lens: "length (snd (control_limits dm)) = ?n" "length (fst (control_limits dm)) = ?n"
    using assms(2,3,4) by auto
  from clamp_entries(1) [OF c lens assms(6)] assms(7) have j: "j < ?n" by simp
  from clamp_entries(2) [OF c lens assms(6) j]
  have e: "out ! i ! j = min (max (expand ?n (u2 ! i) ! j) (snd (control_limits dm) ! j))
                            (fst (control_limits dm) ! j)" .
  from assms(5) j assms(3) have le: "lower ! j \<le> upper ! j"
    by (simp add: list_all2_conv_all_nth)
  from assms(2) show ?thesis
  proof
    assume "control_limits dm = (lower, upper)"
    with e le show ?thesis by (simp add: min_def max_def)
  next
    assume "control_limits dm = (upper, lower)"
    with e le show ?thesis by (simp add: min_def max_def)
  qed
qed

theorem actuator_bounds_witness:
  "u ex_solve ex_dm_lower_first ex_x = Inr [[- 3 / 4, - 1], [- 3 / 4, - 1], [- 3 / 4, - 1]]
   \<and> control_limits ex_dm_lower_first = (ex_lower, ex_upper)
   \<and> u ex_solve ex_dm ex_x = Inr [[- 3 / 4, 0], [0, 0], [0, 0]]
   \<and> control_limits ex_dm = (ex_upper, ex_lower)
   \<and> length ex_lower = n_controls ex_dm
   \<and> length ex_upper = n_controls ex_dm
   \<and> list_all2 (\<le>) ex_lower ex_upper
   \<and> ex_lower ! 1 \<le> [[- 3 / 4, - 1], [- 3 / 4, - 1], [- 3 / 4, - 1]] ! 2 ! 1
   \<and> [[- 3 / 4, - 1], [- 3 / 4, - 1], [- 3 / 4, - 1]] ! 2 ! 1 \<le> ex_upper ! 1
   \<and> ex_lower ! 0 \<le> [[- 3 / 4, 0], [0, 0], [0, 0]] ! 0 ! 0
   \<and> [[- 3 / 4, 0], [0, 0], [0, 0]] ! 0 ! 0 \<le> ex_upper ! 0"
proof -
  have n: "n_controls ex_dm = 2" "n_controls ex_dm_lower_first = 2"
    by (simp_all add: ex_dm_def ex_dm_lower_first_def)
  have c: "control_limits ex_dm = (ex_upper, ex_lower)"
    and c': "control_limits ex_dm_lower_first = (ex_lower, ex_upper)"
    by (simp_all add: ex_dm_def ex_dm_lower_first_def ex_lower_def ex_upper_def)
  have len: "length ex_lower = 2" "length ex_upper = 2"
    by (simp_all add: ex_lower_def ex_upper_def)
  have le: "list_all2 (\<le>) ex_lower ex_upper"
    by (simp add: ex_lower_def ex_upper_def)
  have t1: "ex_lower ! 1 \<le> [[- 3 / 4, - 1], [- 3 / 4, - 1], [- 3 / 4, - 1]] ! 2 ! 1
      \<and> [[- 3 / 4, - 1], [- 3 / 4, - 1], [- 3 / 4, - 1]] ! 2 ! 1 \<le> ex_upper ! 1"
    using actuator_bounds [of ex_solve ex_dm_lower_first ex_x _ ex_lower ex_upper 2 1,
        OF ex_u_lower_first] c' n len le
    by simp
  have t2: "ex_lower ! 0 \<le> [[- 3 / 4, 0], [0, 0], [0, 0]] ! 0 ! 0
      \<and> [[- 3 / 4, 0], [0, 0], [0, 0]] ! 0 ! 0 \<le> ex_upper ! 0"
    using actuator_bounds [of ex_solve ex_dm ex_x _ ex_lower ex_upper 0 0, OF ex_u] c n len le
    by simp
  from ex_u_lower_first c' ex_u c n len le t1 t2 show ?thesis by simp
qed

text \<open>
  With the pair returned as \<open>(lower, upper)\<close>, line 191 names the lower limits
  \<open>u_upper\<close> and the upper limits \<open>u_lower\<close>, and the clamp returns the lower limits
  in every row.
\<close>

lemma u_lower_first_saturates:
  assumes "u solve dm x = Inr out"
    and "control_limits dm = (lower, upper)"
    and "length lower = n_controls dm" and "length upper = n_controls dm"
    and "list_all2 (\<le>) lower upper"
    and "i < length out"
  shows "out ! i = lower"
proof -
  from assms(1) obtain u1 u2 where
    c: "clamp (n_controls dm) u2 (snd (control_limits dm)) (fst (control_limits dm)) = Inr out"
    by (rule u_unfold)
  let ?n = "n_controls dm"
  have lens: "length (snd (control_limits dm)) = ?n" "length (fst (control_limits dm)) = ?n"
    using assms(2,3,4) by auto
  have len: "length (out ! i) = ?n"
    by (rule clamp_entries(1) [OF c lens assms(6)])
  have "out ! i ! j = lower ! j" if j: "j < ?n" for j
  proof -
    from clamp_entries(2) [OF c lens assms(6) j] assms(2)
    have e: "out ! i ! j = min (max (expand ?n (u2 ! i) ! j) (upper ! j)) (lower ! j)"
      by simp
    from assms(5) j assms(3) have "lower ! j \<le> upper ! j"
      by (simp add: list_all2_conv_all_nth)
    with e show ?thesis by (simp add: min_def max_def)
  qed
  with len assms(3) show ?thesis by (simp add: list_eq_iff_nth_eq)
qed

text \<open>
  C2. When \<open>u\<close> returns and, for batch element \<open>i\<close>, the Stage 1 solve or the
  Stage 2 solve reports a status other than \<open>optimal\<close>, the body of the loop for
  \<open>i\<close> raises nothing and returns \<open>u\<close> unchanged, and row \<open>i\<close> of the command is
  the clamp of the scaled zero row.
\<close>

theorem skip_safety:
  assumes "u solve dm x = Inr out" and "i < length x"
    and "stage1_constraints (get_observations dm x ! i) = Inr cs"
    and "status (solve (stage1_problem cs)) \<noteq> ''optimal''
         \<or> (\<exists>P_opt. P_value (solve (stage1_problem cs)) = Some P_opt
               \<and> status (solve (stage2_problem cs (x ! i ! 0, x ! i ! 1)
                                   (rotation_matrix (x ! i ! 2)) P_opt)) \<noteq> ''optimal'')"
  shows "loop_body solve dm x (get_observations dm x) i w = Inr w
    \<and> (\<exists>z. scale_velocities (n_controls dm) [replicate (n_controls dm) 0] = Inr z
          \<and> clamp (n_controls dm) z (snd (control_limits dm)) (fst (control_limits dm))
              = Inr [out ! i])"
proof -
  let ?obs = "get_observations dm x"
  from assms(1,2) obtain v v' z where
    a: "loop_body solve dm x ?obs i v = Inr v'"
    "v ! i = replicate (n_controls dm) 0" "i < length v"
    "scale_velocities (n_controls dm) [v' ! i] = Inr z"
    "clamp (n_controls dm) z (snd (control_limits dm)) (fst (control_limits dm)) = Inr [out ! i]"
    by (rule u_row)
  from a(1) have skip: "v' = v \<and> loop_body solve dm x ?obs i w = Inr w"
  proof (cases rule: loop_body_cases)
    case (stage1_skip cs')
    with assms(3) have "loop_body solve dm x ?obs i w = Inr w"
      using loop_body_stage1_skip [of i ?obs cs' solve dm x w] by simp
    with stage1_skip(4) show ?thesis by simp
  next
    case (stage2_skip cs' P_opt)
    have "loop_body solve dm x ?obs i w =
       (let theta = x ! i ! 2;
            sol2 = solve (stage2_problem cs' (x ! i ! 0, x ! i ! 1) (rotation_matrix theta) P_opt)
        in if status sol2 \<noteq> ''optimal'' then Inr w
           else (case x_target_value sol2 of
                   None \<Rightarrow> Inl TypeError
                 | Some xt \<Rightarrow>
                     assign_row w i
                       (u_nominal dm [shifted_state (mat_vec (rotation_matrix theta) xt) theta])))"
      using stage2_skip(1-5) by (rule loop_body_optimal)
    with stage2_skip(6,7) show ?thesis by (simp add: Let_def)
  next
    case (command cs' P_opt xt)
    with assms(3,4) have False by auto
    then show ?thesis ..
  qed
  with a(2,4,5) show ?thesis by auto
qed

theorem skip_safety_witness:
  "u ex_solve ex_dm ex_x = Inr ex_out
   \<and> 1 < length ex_x
   \<and> stage1_constraints (get_observations ex_dm ex_x ! 1) = Inr ex_cs
   \<and> status (ex_solve (stage1_problem ex_cs)) = ''optimal''
   \<and> P_value (ex_solve (stage1_problem ex_cs)) = Some ex_P
   \<and> status (ex_solve (stage2_problem ex_cs (ex_x ! 1 ! 0, ex_x ! 1 ! 1)
                          (rotation_matrix (ex_x ! 1 ! 2)) ex_P)) \<noteq> ''optimal''
   \<and> loop_body ex_solve ex_dm ex_x (get_observations ex_dm ex_x) 1 ex_w = Inr ex_w
   \<and> 2 < length ex_x
   \<and> stage1_constraints (get_observations ex_dm ex_x ! 2) = Inr ex_cs_near
   \<and> status (ex_solve (stage1_problem ex_cs_near)) \<noteq> ''optimal''
   \<and> loop_body ex_solve ex_dm ex_x (get_observations ex_dm ex_x) 2 ex_w = Inr ex_w
   \<and> scale_velocities (n_controls ex_dm) [replicate (n_controls ex_dm) 0] = Inr [[0, 0]]
   \<and> clamp (n_controls ex_dm) [[0, 0]] (snd (control_limits ex_dm)) (fst (control_limits ex_dm))
       = Inr [ex_out ! 1]
   \<and> clamp (n_controls ex_dm) [[0, 0]] (snd (control_limits ex_dm)) (fst (control_limits ex_dm))
       = Inr [ex_out ! 2]"
proof -
  have a: "u ex_solve ex_dm ex_x = Inr ex_out"
    unfolding ex_out_def by (rule ex_u)
  have l: "1 < length ex_x" "2 < length ex_x" by (simp_all add: ex_x_def)
  have g: "get_observations ex_dm ex_x = [[[1, 0], [0, 1]], [[1, 0], [0, 1]], [[1 / 2], [0]]]"
    by (simp add: ex_dm_def ex_get_observations_def ex_x_def)
  have c1: "stage1_constraints (get_observations ex_dm ex_x ! 1) = Inr ex_cs"
    by (simp add: g ex_stage1_cs)
  have c2: "stage1_constraints (get_observations ex_dm ex_x ! 2) = Inr ex_cs_near"
    unfolding g ex_cs_near_def using ex_stage1_b by simp
  have s1: "status (ex_solve (stage1_problem ex_cs)) = ''optimal''"
    and p1: "P_value (ex_solve (stage1_problem ex_cs)) = Some ex_P"
    by (simp_all add: ex_sol1)
  have s2: "status (ex_solve (stage2_problem ex_cs (ex_x ! 1 ! 0, ex_x ! 1 ! 1)
                          (rotation_matrix (ex_x ! 1 ! 2)) ex_P)) \<noteq> ''optimal''"
    by (simp add: ex_x_def ex_sol2_far)
  have s3: "status (ex_solve (stage1_problem ex_cs_near)) \<noteq> ''optimal''"
    unfolding ex_cs_near_def by (simp only: ex_sol1_b) simp
  have sc: "scale_velocities (n_controls ex_dm) [replicate (n_controls ex_dm) 0] = Inr [[0, 0]]"
    by (simp add: ex_dm_def scale_velocities_def replicate2)
  from p1 s2 have h1: "status (ex_solve (stage1_problem ex_cs)) \<noteq> ''optimal''
         \<or> (\<exists>P_opt. P_value (ex_solve (stage1_problem ex_cs)) = Some P_opt
               \<and> status (ex_solve (stage2_problem ex_cs (ex_x ! 1 ! 0, ex_x ! 1 ! 1)
                                   (rotation_matrix (ex_x ! 1 ! 2)) P_opt)) \<noteq> ''optimal'')"
    by simp
  from s3 have h2: "status (ex_solve (stage1_problem ex_cs_near)) \<noteq> ''optimal''
         \<or> (\<exists>P_opt. P_value (ex_solve (stage1_problem ex_cs_near)) = Some P_opt
               \<and> status (ex_solve (stage2_problem ex_cs_near (ex_x ! 2 ! 0, ex_x ! 2 ! 1)
                                   (rotation_matrix (ex_x ! 2 ! 2)) P_opt)) \<noteq> ''optimal'')"
    by simp
  from skip_safety [OF a l(1) c1 h1, of ex_w] sc
  have t1: "loop_body ex_solve ex_dm ex_x (get_observations ex_dm ex_x) 1 ex_w = Inr ex_w"
    and t1': "clamp (n_controls ex_dm) [[0, 0]] (snd (control_limits ex_dm))
        (fst (control_limits ex_dm)) = Inr [ex_out ! 1]"
    by auto
  from skip_safety [OF a l(2) c2 h2, of ex_w] sc
  have t2: "loop_body ex_solve ex_dm ex_x (get_observations ex_dm ex_x) 2 ex_w = Inr ex_w"
    and t2': "clamp (n_controls ex_dm) [[0, 0]] (snd (control_limits ex_dm))
        (fst (control_limits ex_dm)) = Inr [ex_out ! 2]"
    by auto
  from a l(1) c1 s1 p1 s2 t1 l(2) c2 s3 t2 sc t1' t2' show ?thesis by (intro conjI)
qed

text \<open>
  C3, as the code has it. When both solves of element \<open>i\<close> report \<open>optimal\<close>, the
  state handed to \<open>u_nominal\<close> is the one-row batch of the three entries
  \<open>- g0, - g1, theta\<close>, where \<open>(g0, g1) = R(theta) x_target\<close> and \<open>theta\<close> is
  \<open>x[i, 2]\<close> unchanged: the position is replaced and the heading kept. It is the state
  \<open>x[i]\<close> with its position replaced exactly when \<open>x[i]\<close> has three entries; entries
  of \<open>x[i]\<close> after the heading are not handed on.
\<close>

lemma update_positions: "length r = 3 \<Longrightarrow> r[0 := a, 1 := b] = [a, b, r ! 2]"
proof -
  assume "length r = 3"
  then obtain p q t where "r = [p, q, t]"
    by (cases r; cases "tl r"; cases "tl (tl r)") (auto simp add: numeral_3_eq_3)
  then show ?thesis by simp
qed

theorem nominal_state:
  assumes "i < length obs"
    and "stage1_constraints (obs ! i) = Inr cs"
    and "status (solve (stage1_problem cs)) = ''optimal''"
    and "P_value (solve (stage1_problem cs)) = Some P_opt"
    and "2 < length (x ! i)"
    and "status (solve (stage2_problem cs (x ! i ! 0, x ! i ! 1) (rotation_matrix (x ! i ! 2)) P_opt))
           = ''optimal''"
    and "x_target_value
           (solve (stage2_problem cs (x ! i ! 0, x ! i ! 1) (rotation_matrix (x ! i ! 2)) P_opt))
           = Some x_target"
    and "mat_vec (rotation_matrix (x ! i ! 2)) x_target = (g0, g1)"
  shows "loop_body solve dm x obs i w = assign_row w i (u_nominal dm [[- g0, - g1, x ! i ! 2]])
    \<and> (length (x ! i) = 3 \<longrightarrow> [- g0, - g1, x ! i ! 2] = (x ! i)[0 := - g0, 1 := - g1])"
proof -
  have "loop_body solve dm x obs i w =
       (let theta = x ! i ! 2;
            sol2 = solve (stage2_problem cs (x ! i ! 0, x ! i ! 1) (rotation_matrix theta) P_opt)
        in if status sol2 \<noteq> ''optimal'' then Inr w
           else (case x_target_value sol2 of
                   None \<Rightarrow> Inl TypeError
                 | Some xt \<Rightarrow>
                     assign_row w i
                       (u_nominal dm [shifted_state (mat_vec (rotation_matrix theta) xt) theta])))"
    using assms(1-5) by (rule loop_body_optimal)
  with assms(6-8) have
    "loop_body solve dm x obs i w = assign_row w i (u_nominal dm [[- g0, - g1, x ! i ! 2]])"
    by (simp add: Let_def shifted_state_def)
  moreover have "length (x ! i) = 3 \<longrightarrow>
      [- g0, - g1, x ! i ! 2] = (x ! i)[0 := - g0, 1 := - g1]"
    using update_positions [of "x ! i" "- g0" "- g1", symmetric] by (intro impI)
  ultimately show ?thesis by (rule conjI)
qed

theorem nominal_state_witness:
  "(0::nat) < length (ex_get_observations ex_x)
   \<and> stage1_constraints (ex_get_observations ex_x ! 0) = Inr ex_cs
   \<and> status (ex_solve (stage1_problem ex_cs)) = ''optimal''
   \<and> P_value (ex_solve (stage1_problem ex_cs)) = Some ex_P
   \<and> 2 < length (ex_x ! 0)
   \<and> status (ex_solve (stage2_problem ex_cs (ex_x ! 0 ! 0, ex_x ! 0 ! 1)
                          (rotation_matrix (ex_x ! 0 ! 2)) ex_P)) = ''optimal''
   \<and> x_target_value (ex_solve (stage2_problem ex_cs (ex_x ! 0 ! 0, ex_x ! 0 ! 1)
                                  (rotation_matrix (ex_x ! 0 ! 2)) ex_P)) = Some (- 1 / 2, 0)
   \<and> mat_vec (rotation_matrix (ex_x ! 0 ! 2)) (- 1 / 2, 0) = (- 1 / 2, 0)
   \<and> loop_body ex_solve ex_dm ex_x (ex_get_observations ex_x) 0 [[0, 0], [0, 0], [0, 0]]
       = assign_row [[0, 0], [0, 0], [0, 0]] 0
           (u_nominal ex_dm [[- (- 1 / 2), - 0, ex_x ! 0 ! 2]])
   \<and> length (ex_x ! 0) = 3
   \<and> [- (- 1 / 2), - 0, ex_x ! 0 ! 2] = (ex_x ! 0)[0 := - (- 1 / 2), 1 := - 0]"
proof -
  have x0: "ex_x ! 0 = [1 / 2, 0, 0]" by (simp add: ex_x_def)
  have a1: "(0::nat) < length (ex_get_observations ex_x)"
    by (simp add: ex_get_observations_def ex_x_def)
  have a2: "stage1_constraints (ex_get_observations ex_x ! 0) = Inr ex_cs"
    by (simp add: ex_get_observations_def ex_x_def ex_stage1_cs)
  have a3: "status (ex_solve (stage1_problem ex_cs)) = ''optimal''"
    and a4: "P_value (ex_solve (stage1_problem ex_cs)) = Some ex_P"
    by (simp_all add: ex_sol1)
  have a5: "2 < length (ex_x ! 0)" by (simp add: x0)
  have a6: "status (ex_solve (stage2_problem ex_cs (ex_x ! 0 ! 0, ex_x ! 0 ! 1)
                          (rotation_matrix (ex_x ! 0 ! 2)) ex_P)) = ''optimal''"
    and a7: "x_target_value (ex_solve (stage2_problem ex_cs (ex_x ! 0 ! 0, ex_x ! 0 ! 1)
                                  (rotation_matrix (ex_x ! 0 ! 2)) ex_P)) = Some (- 1 / 2, 0)"
    by (simp_all add: x0 ex_sol2)
  have a8: "mat_vec (rotation_matrix (ex_x ! 0 ! 2)) (- 1 / 2, 0) = (- 1 / 2, 0)"
    by (simp add: x0 rot0)
  have l: "length (ex_x ! 0) = 3" by (simp add: x0)
  note t = nominal_state [of 0 "ex_get_observations ex_x" ex_cs ex_solve ex_P ex_x
      "(- 1 / 2, 0)" "- 1 / 2" 0 ex_dm "[[0, 0], [0, 0], [0, 0]]", OF a1 a2 a3 a4 a5 a6 a7 a8]
  from t have c1: "loop_body ex_solve ex_dm ex_x (ex_get_observations ex_x) 0
       [[0, 0], [0, 0], [0, 0]]
       = assign_row [[0, 0], [0, 0], [0, 0]] 0
           (u_nominal ex_dm [[- (- 1 / 2), - 0, ex_x ! 0 ! 2]])"
    by (rule conjunct1)
  from t l have c2: "[- (- 1 / 2), - 0, ex_x ! 0 ! 2] = (ex_x ! 0)[0 := - (- 1 / 2), 1 := - 0]"
    by blast
  from a1 a2 a3 a4 a5 a6 a7 a8 c1 l c2 show ?thesis by (intro conjI)
qed

text \<open>
  The claim as stated fails on a state of four entries: with a nominal controller that
  returns the state it is given, the row assigned is \<open>[1/2, 0, 0]\<close>, not the state
  \<open>[1/2, 0, 0, 7]\<close> with its position replaced; the entry \<open>7\<close> is dropped.
\<close>

theorem nominal_state_counterexample:
  "loop_body ex_solve ex_echo ex_x4 (ex_get_observations ex_x4) 0 [[0, 0, 0]]
     = Inr [[1 / 2, 0, 0]]
   \<and> ex_x4 ! 0 = [1 / 2, 0, 0, 7]
   \<and> [1 / 2, 0, 0] \<noteq> (ex_x4 ! 0)[0 := 1 / 2, 1 := 0]
   \<and> drop 3 [1 / 2, 0, 0 :: real] = [] \<and> drop 3 (ex_x4 ! 0) = [7]"
  by (simp add: ex_body_echo) (simp add: ex_x4_def)

text \<open>
  C4. For a solver that keeps its contract within the tolerance \<open>eps\<close>: whenever the
  Stage 1 solve of an observation reports \<open>optimal\<close>, the value of \<open>P\<close> is symmetric,
  positive semi-definite within \<open>eps\<close>, and \<open>o\<^sup>T P o \<ge> 1.25 - eps\<close> for every
  observed point \<open>o\<close> (every column of the observation).
\<close>

theorem ellipsoid_feasibility:
  assumes "solver_sound eps solve"
    and "stage1_constraints batch_obs = Inr cs"
    and "status (solve (stage1_problem cs)) = ''optimal''"
  shows "\<exists>P. P_value (solve (stage1_problem cs)) = Some P
           \<and> symmetric2 P \<and> psd_tol eps P
           \<and> (\<forall>j<shape_last batch_obs.
                 \<exists>o_j. to_vec2 (column batch_obs j) = Inr o_j \<and> 1.25 - eps \<le> quad_form o_j P)"
proof -
  let ?sol = "solve (stage1_problem cs)"
  from assms(1,3) have feas: "feasible eps (stage1_problem cs) ?sol"
    by (simp add: solver_sound_def)
  have cs: "prob_constraints (stage1_problem cs) = cs"
    and sym: "P_symmetric (stage1_problem cs)"
    by (simp_all add: stage1_problem_def)
  from stage1_constraints_sound(1) [OF assms(2)] feas cs
  have "satisfies eps ?sol PSD" by (simp add: feasible_member)
  then obtain P where P: "P_value ?sol = Some P" and psd: "psd_tol eps P"
    by (auto simp add: satisfies_def split: option.splits)
  from feas P sym have symP: "symmetric2 P"
    by (simp add: feasible_def)
  have pts: "\<forall>j<shape_last batch_obs.
                 \<exists>o_j. to_vec2 (column batch_obs j) = Inr o_j \<and> 1.25 - eps \<le> quad_form o_j P"
  proof (intro allI impI)
    fix j assume "j < shape_last batch_obs"
    with stage1_constraints_sound(2) [OF assms(2)] obtain o_j where
      o: "to_vec2 (column batch_obs j) = Inr o_j" "QuadFormP_ge o_j 1.25 \<in> set cs"
      by blast
    from feasible_member [OF feas] o(2) cs have "satisfies eps ?sol (QuadFormP_ge o_j 1.25)"
      by simp
    with P have "1.25 - eps \<le> quad_form o_j P"
      by (simp add: satisfies_def)
    with o(1) show "\<exists>o_j. to_vec2 (column batch_obs j) = Inr o_j \<and> 1.25 - eps \<le> quad_form o_j P"
      by blast
  qed
  from P symP psd pts show ?thesis by blast
qed

theorem ellipsoid_feasibility_witness:
  "solver_sound 0 ex_solve
   \<and> stage1_constraints [[1, 0], [0, 1]] = Inr ex_cs
   \<and> status (ex_solve (stage1_problem ex_cs)) = ''optimal''
   \<and> P_value (ex_solve (stage1_problem ex_cs)) = Some ex_P
   \<and> symmetric2 ex_P \<and> psd_tol 0 ex_P
   \<and> shape_last [[1, 0], [0, 1]] = 2
   \<and> to_vec2 (column [[1, 0], [0, 1]] 0) = Inr (1, 0)
   \<and> to_vec2 (column [[1, 0], [0, 1]] 1) = Inr (0, 1)
   \<and> 1.25 - 0 \<le> quad_form (1, 0) ex_P \<and> 1.25 - 0 \<le> quad_form (0, 1) ex_P"
proof -
  have s: "status (ex_solve (stage1_problem ex_cs)) = ''optimal''"
    by (simp add: ex_sol1)
  have p: "P_value (ex_solve (stage1_problem ex_cs)) = Some ex_P"
    by (simp add: ex_sol1)
  have sh: "shape_last [[1, 0], [0, 1 :: real]] = 2"
    by (simp add: shape_last_def)
  have c0: "to_vec2 (column [[1, 0], [0, 1]] 0) = Inr (1, 0)"
    and c1: "to_vec2 (column [[1, 0], [0, 1]] 1) = Inr (0, 1)"
    by (simp_all add: column_def to_vec2_def)
  from ellipsoid_feasibility [OF ex_solve_sound ex_stage1_cs s] p obtain
    sym: "symmetric2 ex_P" and psd: "psd_tol 0 ex_P"
    and pts: "\<forall>j<shape_last [[1, 0], [0, 1]].
                \<exists>o_j. to_vec2 (column [[1, 0], [0, 1]] j) = Inr o_j
                      \<and> 1.25 - 0 \<le> quad_form o_j ex_P"
    by auto
  have "(0::nat) < shape_last [[1, 0], [0, 1 :: real]]" by (simp add: sh)
  from pts [rule_format, OF this] c0 have q0: "1.25 - 0 \<le> quad_form (1, 0) ex_P" by auto
  have "(1::nat) < shape_last [[1, 0], [0, 1 :: real]]" by (simp add: sh)
  from pts [rule_format, OF this] c1 have q1: "1.25 - 0 \<le> quad_form (0, 1) ex_P" by auto
  from sym psd q0 q1 have "symmetric2 ex_P \<and> psd_tol 0 ex_P
      \<and> 1.25 - 0 \<le> quad_form (1, 0) ex_P \<and> 1.25 - 0 \<le> quad_form (0, 1) ex_P"
    by simp
  with ex_solve_sound ex_stage1_cs s p sh c0 c1 show ?thesis by simp
qed

text \<open>
  C5, as the code has it. The Stage 2 program minimises the squared norm of
  \<open>batch_x + R(theta) x_target\<close> and takes \<open>P_opt\<close> as a number; its constraint list
  is the list of Stage 1 (\<open>P >> 0\<close> and one constraint per observed point, on the
  variable \<open>P\<close>, which stays a variable of the program) followed by the containment
  constraint \<open>x_target\<^sup>T P_opt x_target \<le> 0.75\<close>. A solution is feasible for it exactly
  when it is feasible for Stage 1 and its \<open>x_target\<close> satisfies the containment
  constraint. This is the program the body of the loop solves once Stage 1 is optimal.
\<close>

theorem stage2_problem_shape:
  "prob_objective (stage2_problem cs batch_x rotation_mat P_opt)
     = Minimize_sum_squares batch_x rotation_mat
   \<and> prob_constraints (stage2_problem cs batch_x rotation_mat P_opt)
       = cs @ [QuadFormX_le P_opt 0.75]
   \<and> (feasible eps (stage2_problem cs batch_x rotation_mat P_opt) sol \<longleftrightarrow>
        feasible eps (stage1_problem cs) sol
        \<and> (\<exists>xt. x_target_value sol = Some xt \<and> quad_form xt P_opt \<le> 0.75 + eps))
   \<and> (x_target_value sol = Some xt \<longrightarrow>
        objective_value (prob_objective (stage2_problem cs batch_x rotation_mat P_opt)) sol
          = Some (sum_squares [fst batch_x + fst (mat_vec rotation_mat xt),
                               snd batch_x + snd (mat_vec rotation_mat xt)]))
   \<and> (i < length obs \<and> stage1_constraints (obs ! i) = Inr cs
        \<and> status (solve (stage1_problem cs)) = ''optimal''
        \<and> P_value (solve (stage1_problem cs)) = Some P_opt \<and> 2 < length (x ! i) \<longrightarrow>
        loop_body solve dm x obs i w =
          (let theta = x ! i ! 2;
               sol2 = solve (stage2_problem cs (x ! i ! 0, x ! i ! 1) (rotation_matrix theta)
                               P_opt)
           in if status sol2 \<noteq> ''optimal'' then Inr w
              else (case x_target_value sol2 of
                      None \<Rightarrow> Inl TypeError
                    | Some xt \<Rightarrow>
                        assign_row w i
                          (u_nominal dm
                             [shifted_state (mat_vec (rotation_matrix theta) xt) theta]))))"
proof (intro conjI impI)
  show "feasible eps (stage2_problem cs batch_x rotation_mat P_opt) sol \<longleftrightarrow>
        feasible eps (stage1_problem cs) sol
        \<and> (\<exists>xt. x_target_value sol = Some xt \<and> quad_form xt P_opt \<le> 0.75 + eps)"
    by (rule feasible_stage2_iff)
next
  assume "x_target_value sol = Some xt"
  then show "objective_value (prob_objective (stage2_problem cs batch_x rotation_mat P_opt)) sol
          = Some (sum_squares [fst batch_x + fst (mat_vec rotation_mat xt),
                               snd batch_x + snd (mat_vec rotation_mat xt)])"
    by (simp add: objective_value_def stage2_problem_def sum_squares_def split: prod.splits)
next
  assume a: "i < length obs \<and> stage1_constraints (obs ! i) = Inr cs
        \<and> status (solve (stage1_problem cs)) = ''optimal''
        \<and> P_value (solve (stage1_problem cs)) = Some P_opt \<and> 2 < length (x ! i)"
  then have a1: "i < length obs" and a2: "stage1_constraints (obs ! i) = Inr cs"
    and a3: "status (solve (stage1_problem cs)) = ''optimal''"
    and a4: "P_value (solve (stage1_problem cs)) = Some P_opt" and a5: "2 < length (x ! i)"
    by simp_all
  from a1 a2 a3 a4 a5 show "loop_body solve dm x obs i w =
          (let theta = x ! i ! 2;
               sol2 = solve (stage2_problem cs (x ! i ! 0, x ! i ! 1) (rotation_matrix theta)
                               P_opt)
           in if status sol2 \<noteq> ''optimal'' then Inr w
              else (case x_target_value sol2 of
                      None \<Rightarrow> Inl TypeError
                    | Some xt \<Rightarrow>
                        assign_row w i
                          (u_nominal dm
                             [shifted_state (mat_vec (rotation_matrix theta) xt) theta])))"
    by (rule loop_body_optimal)
qed (simp_all add: stage2_problem_def)

theorem stage2_problem_shape_witness:
  "prob_objective (stage2_problem ex_cs (1 / 2, 0) (rotation_matrix 0) ex_P)
     = Minimize_sum_squares (1 / 2, 0) (rotation_matrix 0)
   \<and> prob_constraints (stage2_problem ex_cs (1 / 2, 0) (rotation_matrix 0) ex_P)
       = ex_cs @ [QuadFormX_le ex_P 0.75]
   \<and> feasible 0 (stage1_problem ex_cs)
        (ex_solve (stage2_problem ex_cs (1 / 2, 0) (rotation_matrix 0) ex_P))
   \<and> x_target_value (ex_solve (stage2_problem ex_cs (1 / 2, 0) (rotation_matrix 0) ex_P))
       = Some (- 1 / 2, 0)
   \<and> quad_form (- 1 / 2, 0) ex_P \<le> 0.75 + 0
   \<and> feasible 0 (stage2_problem ex_cs (1 / 2, 0) (rotation_matrix 0) ex_P)
        (ex_solve (stage2_problem ex_cs (1 / 2, 0) (rotation_matrix 0) ex_P))
   \<and> objective_value
        (prob_objective (stage2_problem ex_cs (1 / 2, 0) (rotation_matrix 0) ex_P))
        (ex_solve (stage2_problem ex_cs (1 / 2, 0) (rotation_matrix 0) ex_P))
       = Some 0"
proof -
  let ?prob = "stage2_problem ex_cs (1 / 2, 0) (rotation_matrix 0) ex_P"
  note t = stage2_problem_shape [of ex_cs "(1 / 2, 0)" "rotation_matrix 0" ex_P 0
      "ex_solve ?prob" "(- 1 / 2, 0)"]
  have xt: "x_target_value (ex_solve ?prob) = Some (- 1 / 2, 0)"
    by (simp add: ex_sol2)
  have f1: "feasible 0 (stage1_problem ex_cs) (ex_solve ?prob)"
    by (simp add: ex_sol2) (simp add: feasible_def stage1_problem_def ex_cs_def satisfies_def
        psd_tol_def quad_form_def symmetric2_def ex_P_def)
  have q: "quad_form (- 1 / 2, 0) ex_P \<le> 0.75 + 0"
    by (simp add: quad_form_def ex_P_def)
  from t have c1: "prob_objective ?prob = Minimize_sum_squares (1 / 2, 0) (rotation_matrix 0)"
    and c2: "prob_constraints ?prob = ex_cs @ [QuadFormX_le ex_P 0.75]"
    by simp_all
  from t f1 xt q have c3: "feasible 0 ?prob (ex_solve ?prob)"
    by blast
  from t xt have "objective_value (prob_objective ?prob) (ex_solve ?prob)
       = Some (sum_squares [fst (1 / 2, 0 :: real) + fst (mat_vec (rotation_matrix 0) (- 1 / 2, 0)),
                            snd (1 / 2 :: real, 0) + snd (mat_vec (rotation_matrix 0) (- 1 / 2, 0))])"
    by blast
  then have c4: "objective_value (prob_objective ?prob) (ex_solve ?prob) = Some 0"
    by (simp add: rot0 sum_squares_def)
  from c1 c2 f1 xt q c3 c4 show ?thesis by (intro conjI)
qed

text \<open>
  The claim as stated fails: for the observation of two points the list has four
  constraints, not the containment constraint alone, and a solution whose \<open>P\<close> has no
  value is feasible for the containment constraint alone but not for the program of the
  code.
\<close>

theorem stage2_problem_counterexample:
  "stage1_constraints [[1, 0], [0, 1]] = Inr ex_cs
   \<and> prob_constraints (stage2_problem ex_cs (1 / 2, 0) (rotation_matrix 0) ex_P)
       = [PSD, QuadFormP_ge (1, 0) 1.25, QuadFormP_ge (0, 1) 1.25, QuadFormX_le ex_P 0.75]
   \<and> prob_constraints (stage2_problem ex_cs (1 / 2, 0) (rotation_matrix 0) ex_P)
       \<noteq> [QuadFormX_le ex_P 0.75]
   \<and> feasible 0 \<lparr>P_symmetric = True,
                   prob_objective = Minimize_sum_squares (1 / 2, 0) (rotation_matrix 0),
                   prob_constraints = [QuadFormX_le ex_P 0.75]\<rparr> ex_bad_solution
   \<and> \<not> feasible 0 (stage2_problem ex_cs (1 / 2, 0) (rotation_matrix 0) ex_P) ex_bad_solution"
  by (simp add: ex_stage1_cs)
     (simp add: stage2_problem_def ex_cs_def feasible_def satisfies_def ex_bad_solution_def
        quad_form_def ex_P_def)

text \<open>
  C6. For a solver that keeps its contract within the tolerance \<open>eps\<close>: whenever the
  Stage 2 solve reports \<open>optimal\<close>, the target point satisfies
  \<open>x_target\<^sup>T P_opt x_target \<le> 0.75 + eps\<close>, where \<open>P_opt\<close> is the value of \<open>P\<close>
  that the optimal Stage 1 solve of the same element left.
\<close>

theorem target_containment:
  assumes "solver_sound eps solve"
    and "stage1_constraints batch_obs = Inr cs"
    and "status (solve (stage1_problem cs)) = ''optimal''"
    and "P_value (solve (stage1_problem cs)) = Some P_opt"
    and "status (solve (stage2_problem cs batch_x rotation_mat P_opt)) = ''optimal''"
  shows "\<exists>xt. x_target_value (solve (stage2_problem cs batch_x rotation_mat P_opt)) = Some xt
           \<and> quad_form xt P_opt \<le> 0.75 + eps"
proof -
  let ?prob = "stage2_problem cs batch_x rotation_mat P_opt"
  from assms(1,5) have feas: "feasible eps ?prob (solve ?prob)"
    by (simp add: solver_sound_def)
  have "QuadFormX_le P_opt 0.75 \<in> set (prob_constraints ?prob)"
    by (simp add: stage2_problem_def)
  from feasible_member [OF feas this] show ?thesis
    by (auto simp add: satisfies_def split: option.splits)
qed

theorem target_containment_witness:
  "solver_sound 0 ex_solve
   \<and> stage1_constraints [[1, 0], [0, 1]] = Inr ex_cs
   \<and> status (ex_solve (stage1_problem ex_cs)) = ''optimal''
   \<and> P_value (ex_solve (stage1_problem ex_cs)) = Some ex_P
   \<and> status (ex_solve (stage2_problem ex_cs (1 / 2, 0) (rotation_matrix 0) ex_P)) = ''optimal''
   \<and> x_target_value (ex_solve (stage2_problem ex_cs (1 / 2, 0) (rotation_matrix 0) ex_P))
       = Some (- 1 / 2, 0)
   \<and> quad_form (- 1 / 2, 0) ex_P \<le> 0.75 + 0"
proof -
  have s: "status (ex_solve (stage1_problem ex_cs)) = ''optimal''"
    and p: "P_value (ex_solve (stage1_problem ex_cs)) = Some ex_P"
    by (simp_all add: ex_sol1)
  have s2: "status (ex_solve (stage2_problem ex_cs (1 / 2, 0) (rotation_matrix 0) ex_P))
      = ''optimal''"
    and xt: "x_target_value (ex_solve (stage2_problem ex_cs (1 / 2, 0) (rotation_matrix 0) ex_P))
      = Some (- 1 / 2, 0)"
    by (simp_all add: ex_sol2)
  from target_containment [OF ex_solve_sound ex_stage1_cs s p s2] xt
  have "quad_form (- 1 / 2, 0) ex_P \<le> 0.75 + 0" by auto
  with ex_solve_sound ex_stage1_cs s p s2 xt show ?thesis by simp
qed

text \<open>
  C9. Two batches on which \<open>u\<close> returns, with the same state and the same
  observation at index \<open>i\<close>, get the same command at index \<open>i\<close>, whatever their
  other elements and their sizes are.
\<close>

theorem no_cross_element_interaction:
  assumes "u solve dm x = Inr out" and "u solve dm x' = Inr out'"
    and "i < length x" and "i < length x'"
    and "x ! i = x' ! i"
    and "get_observations dm x ! i = get_observations dm x' ! i"
  shows "out ! i = out' ! i"
proof -
  from assms(1,3) obtain v v' z where
    a: "loop_body solve dm x (get_observations dm x) i v = Inr v'"
    "v ! i = replicate (n_controls dm) 0" "i < length v"
    "scale_velocities (n_controls dm) [v' ! i] = Inr z"
    "clamp (n_controls dm) z (snd (control_limits dm)) (fst (control_limits dm)) = Inr [out ! i]"
    by (rule u_row)
  from assms(2,4) obtain y y' z' where
    b: "loop_body solve dm x' (get_observations dm x') i y = Inr y'"
    "y ! i = replicate (n_controls dm) 0" "i < length y"
    "scale_velocities (n_controls dm) [y' ! i] = Inr z'"
    "clamp (n_controls dm) z' (snd (control_limits dm)) (fst (control_limits dm)) = Inr [out' ! i]"
    by (rule u_row)
  from a(2) b(2) have "v ! i = y ! i" by simp
  with a(1) b(1) assms(5,6) have "v' ! i = y' ! i"
    using a(3) b(3) by (rule loop_body_row_determined)
  with a(4) b(4) have "z = z'" by simp
  with a(5) b(5) show ?thesis by simp
qed

theorem no_cross_element_interaction_witness:
  "u ex_solve ex_dm ex_x = Inr ex_out \<and> u ex_solve ex_dm ex_x' = Inr ex_out'
   \<and> 0 < length ex_x \<and> 0 < length ex_x'
   \<and> ex_x ! 0 = ex_x' ! 0 \<and> ex_x \<noteq> ex_x'
   \<and> get_observations ex_dm ex_x ! 0 = get_observations ex_dm ex_x' ! 0
   \<and> ex_out ! 0 = ex_out' ! 0"
proof -
  have a: "u ex_solve ex_dm ex_x = Inr ex_out"
    unfolding ex_out_def by (rule ex_u)
  have l: "0 < length ex_x" "0 < length ex_x'"
    by (simp_all add: ex_x_def ex_x'_def)
  have e: "ex_x ! 0 = ex_x' ! 0" and ne: "ex_x \<noteq> ex_x'"
    by (simp_all add: ex_x_def ex_x'_def)
  have o: "get_observations ex_dm ex_x ! 0 = get_observations ex_dm ex_x' ! 0"
    by (simp add: ex_dm_def ex_get_observations_def ex_x_def ex_x'_def)
  from no_cross_element_interaction [OF a ex_u' l e o] a ex_u' l e ne o
  show ?thesis by (intro conjI)
qed

end
